theory Spec2Isabelle
  imports Main "HOL-Library.Word"
begin

section \<open>The token printer of the C front end (compiler.c)\<close>

text \<open>
  \<^verbatim>\<open>compile\<close> drives the scanner and prints one record per token. The scanner
  (\<^verbatim>\<open>initScanner\<close>, \<^verbatim>\<open>scanToken\<close>) and the header that declares \<^verbatim>\<open>Token\<close> and
  \<^verbatim>\<open>TOKEN_EOF\<close> are not among the sources, so the scanner is a parameter of the model:
  a state type \<open>'s\<close>, the function that builds the initial state from the source text,
  and the function that returns the next token together with the new state. The value of
  the enumerator \<^verbatim>\<open>TOKEN_EOF\<close> is a parameter too.
\<close>

type_synonym c_int = "32 word"

text \<open>
  The four fields \<^verbatim>\<open>compile\<close> reads from a token. \<^verbatim>\<open>token.start\<close> points into a
  NUL-terminated buffer; the model keeps the characters from that pointer to the
  terminator.
\<close>

record Token =
  token_type :: c_int
  token_start :: string
  token_length :: c_int
  token_line :: c_int

subsection \<open>The two printf conversions that are used\<close>

fun digits :: "nat \<Rightarrow> string" where
  "digits n =
     (if n < 10 then [''0123456789'' ! n]
      else digits (n div 10) @ [''0123456789'' ! (n mod 10)])"

definition show_int :: "int \<Rightarrow> string" where
  "show_int i = (if i < 0 then CHR ''-'' # digits (nat (- i)) else digits (nat i))"

definition pad_left :: "nat \<Rightarrow> string \<Rightarrow> string" where
  "pad_left w s = replicate (w - length s) (CHR '' '') @ s"

text \<open>\<^verbatim>\<open>%wd\<close>: a signed decimal, right-justified in at least \<open>w\<close> columns.\<close>

definition printf_d :: "nat \<Rightarrow> c_int \<Rightarrow> string" where
  "printf_d w x = pad_left w (show_int (sint x))"

text \<open>
  \<^verbatim>\<open>%.*s\<close>: at most \<open>p\<close> characters of the string; a negative precision counts as no
  precision at all.
\<close>

definition printf_s :: "c_int \<Rightarrow> string \<Rightarrow> string" where
  "printf_s p s = (if sint p < 0 then s else take (nat (sint p)) s)"

text \<open>The second \<^verbatim>\<open>printf\<close> of the loop body: \<^verbatim>\<open>"%2d '%.*s'\n"\<close>.\<close>

definition print_token :: "Token \<Rightarrow> string" where
  "print_token token =
     printf_d 2 (token_type token) @ '' '' @ [CHR 0x27] @
     printf_s (token_length token) (token_start token) @ [CHR 0x27, CHR 0x0A]"

subsection \<open>compile\<close>

text \<open>
  The body of \<^verbatim>\<open>for (;;)\<close>. The loop has no bound of its own, so it is a partial
  function: \<open>None\<close> is the run that never reaches \<^verbatim>\<open>break\<close>. \<open>line0\<close> is the local
  \<^verbatim>\<open>line\<close>, \<open>out\<close> what has been written to standard output so far.
\<close>

partial_function (option) compile_loop ::
  "('s \<Rightarrow> Token \<times> 's) \<Rightarrow> c_int \<Rightarrow> 's \<Rightarrow> c_int \<Rightarrow> string \<Rightarrow> string option" where
  "compile_loop scanToken TOKEN_EOF sc line0 out =
     (case scanToken sc of (token, sc') \<Rightarrow>
        let (out1, line1) =
              (if token_line token \<noteq> line0
               then (out @ printf_d 4 (token_line token) @ '' '', token_line token)
               else (out @ ''   | '', line0));
            out2 = out1 @ print_token token
        in if token_type token = TOKEN_EOF then Some out2
           else compile_loop scanToken TOKEN_EOF sc' line1 out2)"

declare compile_loop.simps [code]

definition compile ::
  "(string \<Rightarrow> 's) \<Rightarrow> ('s \<Rightarrow> Token \<times> 's) \<Rightarrow> c_int \<Rightarrow> string \<Rightarrow> string option" where
  "compile initScanner scanToken TOKEN_EOF source =
     compile_loop scanToken TOKEN_EOF (initScanner source) (- 1) []"

subsection \<open>The tokens a scanner yields, and the listing the claim describes\<close>

fun scan_n :: "('s \<Rightarrow> Token \<times> 's) \<Rightarrow> 's \<Rightarrow> nat \<Rightarrow> 's" where
  "scan_n scanToken sc 0 = sc"
| "scan_n scanToken sc (Suc n) = scan_n scanToken (snd (scanToken sc)) n"

text \<open>The token returned by call number \<open>n\<close> (counting from 0) of \<^verbatim>\<open>scanToken\<close>.\<close>

definition nth_token :: "('s \<Rightarrow> Token \<times> 's) \<Rightarrow> 's \<Rightarrow> nat \<Rightarrow> Token" where
  "nth_token scanToken sc n = fst (scanToken (scan_n scanToken sc n))"

text \<open>
  The listing in the words of the claim: one record per token; the record starts with
  the line number when there is no previously printed token or when the line differs
  from that token's line, and with the filler otherwise.
\<close>

fun listing :: "Token option \<Rightarrow> Token list \<Rightarrow> string" where
  "listing prev [] = []"
| "listing prev (t # ts) =
     (if (case prev of None \<Rightarrow> True | Some p \<Rightarrow> token_line t \<noteq> token_line p)
      then printf_d 4 (token_line t) @ '' '' else ''   | '')
     @ print_token t @ listing (Some t) ts"

text \<open>What the loop writes for a list of tokens, starting from a value of \<^verbatim>\<open>line\<close>.\<close>

fun printed :: "c_int \<Rightarrow> Token list \<Rightarrow> string" where
  "printed l [] = []"
| "printed l (t # ts) =
     (if token_line t \<noteq> l then printf_d 4 (token_line t) @ '' '' else ''   | '')
     @ print_token t @ printed (token_line t) ts"

text \<open>A scanner that replays a prepared list of tokens, for concrete runs.\<close>

fun canned :: "Token list \<Rightarrow> Token \<times> Token list" where
  "canned [] = (\<lparr>token_type = 39, token_start = [], token_length = 0, token_line = 1\<rparr>, [])"
| "canned (t # ts) = (t, ts)"

definition demo_tokens :: "string \<Rightarrow> Token list" where
  "demo_tokens source =
     [\<lparr>token_type = 31, token_start = source, token_length = 5, token_line = 1\<rparr>,
      \<lparr>token_type = 21, token_start = drop 6 source, token_length = 1, token_line = 1\<rparr>,
      \<lparr>token_type = 8, token_start = drop 8 source, token_length = 1, token_line = 2\<rparr>,
      \<lparr>token_type = 39, token_start = drop 9 source, token_length = 0, token_line = 2\<rparr>]"

text \<open>
  A scanner whose only token is the end-of-file token, reported on line \<open>-1\<close>.
\<close>

definition minus_one_tokens :: "string \<Rightarrow> Token list" where
  "minus_one_tokens source =
     [\<lparr>token_type = 39, token_start = source, token_length = 0, token_line = - 1\<rparr>]"

section \<open>The grammar file\<close>

text \<open>
  The surface syntax is a context-free grammar, written for a parser generator that builds
  a parse tree from the rules. The model works on the token level: a token is either
  anonymous (it is written as a string literal inside a rule: a keyword, an operator or a
  punctuation mark) or one of the three named terminals \<^verbatim>\<open>NUMBER\<close>, \<^verbatim>\<open>STRING\<close> and
  \<^verbatim>\<open>IDENTIFIER\<close>, with its text.
\<close>

datatype terminal = Str string | NUMBER string | STRING string | IDENTIFIER string

text \<open>
  A parse tree is a node with a name and children, a token, or the empty slot that an
  absent optional item \<^verbatim>\<open>[...]\<close> leaves behind. The grammar fixes the shape of the tree
  by its annotations:
  \<^item> a rule yields a node named after the rule, or after the alias \<^verbatim>\<open>-> name\<close> of the
    alternative that was taken;
  \<^item> a token written as a string literal is left out of the children, unless the rule
    is marked \<^verbatim>\<open>!\<close>; a named terminal is always kept;
  \<^item> a rule marked \<^verbatim>\<open>?\<close> yields its only child instead of a node when the alternative
    has one child and no alias;
  \<^item> a rule whose name starts with \<^verbatim>\<open>_\<close> yields no node: its children become children of
    the rule that uses it.
  Each nonterminal is a relation between a token list and the tree it yields, with one
  introduction rule per alternative of the grammar. The names are the grammar's, with a
  prime where the name is an Isabelle keyword (\<^verbatim>\<open>term\<close>, \<^verbatim>\<open>declaration\<close>,
  \<^verbatim>\<open>print_statement\<close>, \<^verbatim>\<open>method\<close>, and \<^verbatim>\<open>_function\<close>).
\<close>

datatype tree = Tree string "tree list" | Tok terminal | NoneT

subsection \<open>Operator tokens\<close>

text \<open>
  The rules \<^verbatim>\<open>!_equality_operator: "!=" | "=="\<close> and its siblings keep their token and
  pass it to the parent.
\<close>

definition equality_operator :: "terminal \<Rightarrow> bool" where
  "equality_operator t = (t = Str ''!='' \<or> t = Str ''=='')"

definition comparison_operator :: "terminal \<Rightarrow> bool" where
  "comparison_operator t = (t = Str ''>'' \<or> t = Str ''>='' \<or> t = Str ''<'' \<or> t = Str ''<='')"

definition addition_operator :: "terminal \<Rightarrow> bool" where
  "addition_operator t = (t = Str ''-'' \<or> t = Str ''+'')"

definition multipication_operator :: "terminal \<Rightarrow> bool" where
  "multipication_operator t = (t = Str ''/'' \<or> t = Str ''*'')"

definition unary_operator :: "terminal \<Rightarrow> bool" where
  "unary_operator t = (t = Str ''!'' \<or> t = Str ''-'')"

definition logic_or_operator :: "terminal \<Rightarrow> bool" where
  "logic_or_operator t = (t = Str ''or'')"

definition logic_and_operator :: "terminal \<Rightarrow> bool" where
  "logic_and_operator t = (t = Str ''and'')"

subsection \<open>Expressions\<close>

text \<open>
  The rules from \<^verbatim>\<open>expression\<close> down to \<^verbatim>\<open>primary\<close>. \<^verbatim>\<open>arguments\<close> yields the list of
  its children; the node \<^verbatim>\<open>arguments\<close> is built where the rule is used.
\<close>

inductive expression :: "terminal list \<Rightarrow> tree \<Rightarrow> bool"
  and assignment :: "terminal list \<Rightarrow> tree \<Rightarrow> bool"
  and logic_or :: "terminal list \<Rightarrow> tree \<Rightarrow> bool"
  and logic_and :: "terminal list \<Rightarrow> tree \<Rightarrow> bool"
  and equality :: "terminal list \<Rightarrow> tree \<Rightarrow> bool"
  and comparison :: "terminal list \<Rightarrow> tree \<Rightarrow> bool"
  and term' :: "terminal list \<Rightarrow> tree \<Rightarrow> bool"
  and factor :: "terminal list \<Rightarrow> tree \<Rightarrow> bool"
  and unary_expr :: "terminal list \<Rightarrow> tree \<Rightarrow> bool"
  and call :: "terminal list \<Rightarrow> tree \<Rightarrow> bool"
  and arguments :: "terminal list \<Rightarrow> tree list \<Rightarrow> bool"
  and primary :: "terminal list \<Rightarrow> tree \<Rightarrow> bool"
where
  expression_1: "assignment ts t \<Longrightarrow> expression ts t"
| assignment_1: "logic_or ts t \<Longrightarrow> assignment ts t"
| assignment_2: "assignment r rt \<Longrightarrow>
    assignment (IDENTIFIER x # Str ''='' # r) (Tree ''assignment'' [Tok (IDENTIFIER x), rt])"
| assignment_3: "call c tc \<Longrightarrow> assignment r rt \<Longrightarrow>
    assignment (c @ Str ''.'' # IDENTIFIER x # Str ''='' # r) (Tree ''set'' [tc, Tok (IDENTIFIER x), rt])"
| logic_or_1: "logic_and ts t \<Longrightarrow> logic_or ts t"
| logic_or_2: "logic_or l lt \<Longrightarrow> logic_or_operator op \<Longrightarrow> logic_and r rt \<Longrightarrow>
    logic_or (l @ op # r) (Tree ''logical_expression'' [lt, Tok op, rt])"
| logic_and_1: "equality ts t \<Longrightarrow> logic_and ts t"
| logic_and_2: "logic_and l lt \<Longrightarrow> logic_and_operator op \<Longrightarrow> equality r rt \<Longrightarrow>
    logic_and (l @ op # r) (Tree ''logical_expression'' [lt, Tok op, rt])"
| equality_1: "comparison ts t \<Longrightarrow> equality ts t"
| equality_2: "equality l lt \<Longrightarrow> equality_operator op \<Longrightarrow> comparison r rt \<Longrightarrow>
    equality (l @ op # r) (Tree ''binary'' [lt, Tok op, rt])"
| comparison_1: "term' ts t \<Longrightarrow> comparison ts t"
| comparison_2: "comparison l lt \<Longrightarrow> comparison_operator op \<Longrightarrow> term' r rt \<Longrightarrow>
    comparison (l @ op # r) (Tree ''binary'' [lt, Tok op, rt])"
| term_1: "factor ts t \<Longrightarrow> term' ts t"
| term_2: "term' l lt \<Longrightarrow> addition_operator op \<Longrightarrow> factor r rt \<Longrightarrow>
    term' (l @ op # r) (Tree ''binary'' [lt, Tok op, rt])"
| factor_1: "unary_expr ts t \<Longrightarrow> factor ts t"
| factor_2: "factor l lt \<Longrightarrow> multipication_operator op \<Longrightarrow> unary_expr r rt \<Longrightarrow>
    factor (l @ op # r) (Tree ''binary'' [lt, Tok op, rt])"
| unary_expr_1: "call ts t \<Longrightarrow> unary_expr ts t"
| unary_expr_2: "unary_operator op \<Longrightarrow> unary_expr r rt \<Longrightarrow>
    unary_expr (op # r) (Tree ''unary'' [Tok op, rt])"
| call_1: "primary ts t \<Longrightarrow> call ts t"
| call_2_none: "call c tc \<Longrightarrow>
    call (c @ [Str ''('', Str '')'']) (Tree ''call'' [tc, NoneT, Tok (Str '')'')])"
| call_2: "call c tc \<Longrightarrow> arguments a tas \<Longrightarrow>
    call (c @ Str ''('' # a @ [Str '')'']) (Tree ''call'' [tc, Tree ''arguments'' tas, Tok (Str '')'')])"
| call_3: "call c tc \<Longrightarrow>
    call (c @ [Str ''.'', IDENTIFIER x]) (Tree ''get'' [tc, Tok (IDENTIFIER x)])"
| arguments_1: "expression e te \<Longrightarrow> arguments e [te]"
| arguments_2: "arguments a tas \<Longrightarrow> expression e te \<Longrightarrow>
    arguments (a @ Str '','' # e) (tas @ [te])"
| primary_number: "primary [NUMBER n] (Tree ''literal'' [Tok (NUMBER n)])"
| primary_string: "primary [STRING s] (Tree ''literal'' [Tok (STRING s)])"
| primary_true: "primary [Str ''true''] (Tree ''literal'' [Tree ''const_true'' []])"
| primary_false: "primary [Str ''false''] (Tree ''literal'' [Tree ''const_false'' []])"
| primary_nil: "primary [Str ''nil''] (Tree ''literal'' [Tree ''const_nil'' []])"
| primary_this: "primary [Str ''this''] (Tree ''this'' [Tok (Str ''this'')])"
| primary_grouping: "expression e te \<Longrightarrow>
    primary (Str ''('' # e @ [Str '')'']) (Tree ''grouping'' [te])"
| primary_variable: "primary [IDENTIFIER x] (Tree ''variable'' [Tok (IDENTIFIER x)])"
| primary_super: "primary [Str ''super'', Str ''.'', IDENTIFIER x]
    (Tree ''super'' [Tok (Str ''super''), Tok (IDENTIFIER x)])"

subsection \<open>Statements and declarations\<close>

text \<open>
  An optional item \<^verbatim>\<open>[expression]\<close> is either absent, leaving the empty slot, or an
  expression.
\<close>

inductive opt_expression :: "terminal list \<Rightarrow> tree \<Rightarrow> bool" where
  opt_expression_none: "opt_expression [] NoneT"
| opt_expression_some: "expression e te \<Longrightarrow> opt_expression e te"

text \<open>
  \<^verbatim>\<open>parameters: IDENTIFIER ( "," IDENTIFIER )*\<close>, as the list of its children.
\<close>

inductive parameters :: "terminal list \<Rightarrow> tree list \<Rightarrow> bool" where
  parameters_1: "parameters [IDENTIFIER x] [Tok (IDENTIFIER x)]"
| parameters_2: "parameters p tps \<Longrightarrow>
    parameters (p @ [Str '','', IDENTIFIER x]) (tps @ [Tok (IDENTIFIER x)])"

inductive variable_declaration :: "terminal list \<Rightarrow> tree \<Rightarrow> bool" where
  variable_declaration_1:
    "variable_declaration [Str ''var'', IDENTIFIER x, Str '';'']
       (Tree ''variable_declaration'' [Tok (IDENTIFIER x)])"
| variable_declaration_2: "expression e te \<Longrightarrow>
    variable_declaration (Str ''var'' # IDENTIFIER x # Str ''='' # e @ [Str '';''])
       (Tree ''variable_declaration'' [Tok (IDENTIFIER x), te])"

inductive expression_statement :: "terminal list \<Rightarrow> tree \<Rightarrow> bool" where
  expression_statement_1: "expression e te \<Longrightarrow>
    expression_statement (e @ [Str '';'']) (Tree ''expression_statement'' [te])"

inductive print_statement' :: "terminal list \<Rightarrow> tree \<Rightarrow> bool" where
  print_statement_1: "expression e te \<Longrightarrow>
    print_statement' (Str ''print'' # e @ [Str '';'']) (Tree ''print_statement'' [te])"

inductive return_statement :: "terminal list \<Rightarrow> tree \<Rightarrow> bool" where
  return_statement_1: "opt_expression e te \<Longrightarrow>
    return_statement (Str ''return'' # e @ [Str '';''])
       (Tree ''return_statement'' [Tok (Str ''return''), te])"

text \<open>
  The first item of a \<^verbatim>\<open>for\<close> header:
  \<^verbatim>\<open>( variable_declaration | expression_statement | empty_initializer )\<close>, where
  \<^verbatim>\<open>!empty_initializer: ";"\<close> keeps its token.
\<close>

inductive for_initializer :: "terminal list \<Rightarrow> tree \<Rightarrow> bool" where
  for_initializer_1: "variable_declaration ts t \<Longrightarrow> for_initializer ts t"
| for_initializer_2: "expression_statement ts t \<Longrightarrow> for_initializer ts t"
| for_initializer_3: "for_initializer [Str '';''] (Tree ''empty_initializer'' [Tok (Str '';'')])"

text \<open>
  The recursive part. \<^verbatim>\<open>declarations\<close> is \<^verbatim>\<open>declaration*\<close> and \<^verbatim>\<open>methods\<close> is
  \<^verbatim>\<open>method*\<close>, both as lists of trees; \<^verbatim>\<open>function'\<close> is the rule \<^verbatim>\<open>_function\<close>, which
  yields the children of the node that \<^verbatim>\<open>method\<close> and \<^verbatim>\<open>function_declaration\<close> build
  under their alias \<^verbatim>\<open>function\<close>.
\<close>

inductive declaration' :: "terminal list \<Rightarrow> tree \<Rightarrow> bool"
  and declarations :: "terminal list \<Rightarrow> tree list \<Rightarrow> bool"
  and class_declaration :: "terminal list \<Rightarrow> tree \<Rightarrow> bool"
  and methods :: "terminal list \<Rightarrow> tree list \<Rightarrow> bool"
  and method' :: "terminal list \<Rightarrow> tree \<Rightarrow> bool"
  and function_declaration :: "terminal list \<Rightarrow> tree \<Rightarrow> bool"
  and function' :: "terminal list \<Rightarrow> tree list \<Rightarrow> bool"
  and statement :: "terminal list \<Rightarrow> tree \<Rightarrow> bool"
  and for_statement :: "terminal list \<Rightarrow> tree \<Rightarrow> bool"
  and if_statement :: "terminal list \<Rightarrow> tree \<Rightarrow> bool"
  and while_statement :: "terminal list \<Rightarrow> tree \<Rightarrow> bool"
  and block :: "terminal list \<Rightarrow> tree \<Rightarrow> bool"
where
  declaration_1: "class_declaration ts t \<Longrightarrow> declaration' ts t"
| declaration_2: "function_declaration ts t \<Longrightarrow> declaration' ts t"
| declaration_3: "variable_declaration ts t \<Longrightarrow> declaration' ts t"
| declaration_4: "statement ts t \<Longrightarrow> declaration' ts t"
| declarations_0: "declarations [] []"
| declarations_1: "declarations ds tds \<Longrightarrow> declaration' d td \<Longrightarrow>
    declarations (ds @ d) (tds @ [td])"
| class_declaration_1: "methods m tms \<Longrightarrow>
    class_declaration (Str ''class'' # IDENTIFIER c # Str ''{'' # m @ [Str ''}''])
       (Tree ''class_declaration'' (Tok (IDENTIFIER c) # NoneT # tms))"
| class_declaration_2: "methods m tms \<Longrightarrow>
    class_declaration
       (Str ''class'' # IDENTIFIER c # Str ''<'' # IDENTIFIER s # Str ''{'' # m @ [Str ''}''])
       (Tree ''class_declaration''
          (Tok (IDENTIFIER c) # Tree ''variable'' [Tok (IDENTIFIER s)] # tms))"
| methods_0: "methods [] []"
| methods_1: "methods ms tms \<Longrightarrow> method' m tm \<Longrightarrow> methods (ms @ m) (tms @ [tm])"
| method_1: "function' f cs \<Longrightarrow> method' f (Tree ''function'' cs)"
| function_declaration_1: "function' f cs \<Longrightarrow>
    function_declaration (Str ''fun'' # f) (Tree ''function'' cs)"
| function_none: "block b tb \<Longrightarrow>
    function' (IDENTIFIER n # Str ''('' # Str '')'' # b) [Tok (IDENTIFIER n), NoneT, tb]"
| function_some: "parameters p tps \<Longrightarrow> block b tb \<Longrightarrow>
    function' (IDENTIFIER n # Str ''('' # p @ Str '')'' # b)
       [Tok (IDENTIFIER n), Tree ''parameters'' tps, tb]"
| statement_1: "expression_statement ts t \<Longrightarrow> statement ts t"
| statement_2: "for_statement ts t \<Longrightarrow> statement ts t"
| statement_3: "if_statement ts t \<Longrightarrow> statement ts t"
| statement_4: "print_statement' ts t \<Longrightarrow> statement ts t"
| statement_5: "return_statement ts t \<Longrightarrow> statement ts t"
| statement_6: "while_statement ts t \<Longrightarrow> statement ts t"
| statement_7: "block ts t \<Longrightarrow> statement ts t"
| for_statement_1: "for_initializer i ti \<Longrightarrow> opt_expression c tc \<Longrightarrow>
    opt_expression e te \<Longrightarrow> statement b tb \<Longrightarrow>
    for_statement (Str ''for'' # Str ''('' # i @ c @ Str '';'' # e @ Str '')'' # b)
       (Tree ''for_statement'' [ti, tc, te, tb])"
| if_statement_1: "expression c tc \<Longrightarrow> statement s1 t1 \<Longrightarrow>
    if_statement (Str ''if'' # Str ''('' # c @ Str '')'' # s1) (Tree ''if_statement'' [tc, t1])"
| if_statement_2: "expression c tc \<Longrightarrow> statement s1 t1 \<Longrightarrow> statement s2 t2 \<Longrightarrow>
    if_statement (Str ''if'' # Str ''('' # c @ Str '')'' # s1 @ Str ''else'' # s2)
       (Tree ''if_statement'' [tc, t1, t2])"
| while_statement_1: "expression c tc \<Longrightarrow> statement b tb \<Longrightarrow>
    while_statement (Str ''while'' # Str ''('' # c @ Str '')'' # b)
       (Tree ''while_statement'' [tc, tb])"
| block_1: "declarations ds tds \<Longrightarrow>
    block (Str ''{'' # ds @ [Str ''}'']) (Tree ''block'' tds)"

inductive program :: "terminal list \<Rightarrow> tree \<Rightarrow> bool" where
  program_1: "declarations ds tds \<Longrightarrow> program ds (Tree ''program'' tds)"

subsection \<open>The COMMENT terminal\<close>













section \<open>Notions the claims about the grammar are stated with\<close>

subsection \<open>Logical and binary nodes\<close>

definition logic_operator :: "terminal \<Rightarrow> bool" where
  "logic_operator t = (logic_or_operator t \<or> logic_and_operator t)"

definition binary_operator :: "terminal \<Rightarrow> bool" where
  "binary_operator t =
     (equality_operator t \<or> comparison_operator t \<or> addition_operator t \<or> multipication_operator t)"



subsection \<open>Precedence levels\<close>




subsection \<open>Where the keyword super may stand\<close>

fun is_identifier :: "terminal \<Rightarrow> bool" where
  "is_identifier (IDENTIFIER x) = True"
| "is_identifier _ = False"

definition super_ok :: "terminal list \<Rightarrow> bool" where
  "super_ok ts =
     (\<forall>i<length ts. ts ! i = Str ''super'' \<longrightarrow>
        Suc (Suc i) < length ts \<and> ts ! Suc i = Str ''.'' \<and> is_identifier (ts ! Suc (Suc i)))"

subsection \<open>Parenthesis depth\<close>

text \<open>
  \<open>bal ts d\<close> is the depth after reading \<open>ts\<close> from depth \<open>d\<close>, or \<open>None\<close> when a
  closing parenthesis has no partner. \<open>top_level d ts\<close> lists the tokens of \<open>ts\<close>, read
  from depth \<open>d\<close>, that stand outside every pair of parentheses.
\<close>

fun bal :: "terminal list \<Rightarrow> nat \<Rightarrow> nat option" where
  "bal [] d = Some d"
| "bal (t # ts) d =
     (if t = Str ''('' then bal ts (Suc d)
      else if t = Str '')'' then (case d of 0 \<Rightarrow> None | Suc d' \<Rightarrow> bal ts d')
      else bal ts d)"

definition balanced :: "terminal list \<Rightarrow> bool" where
  "balanced ts = (\<forall>d. bal ts d = Some d)"

fun top_level :: "nat \<Rightarrow> terminal list \<Rightarrow> terminal list" where
  "top_level d [] = []"
| "top_level d (t # ts) =
     (if t = Str ''('' then top_level (Suc d) ts
      else if t = Str '')'' then top_level (d - 1) ts
      else (if d = 0 then [t] else []) @ top_level d ts)"

definition is_operator :: "terminal \<Rightarrow> bool" where
  "is_operator t = (t = Str ''='' \<or> logic_operator t \<or> binary_operator t \<or> unary_operator t)"

subsection \<open>The assignment step in the words of the specification\<close>

text \<open>
  The specification describes assignment as a step on the tree of the left-hand side:
  a variable becomes an assignment to that variable, a property access becomes a
  property assignment, and anything else is the syntax error. \<open>None\<close> is the error.
\<close>

fun assignment_target :: "tree \<Rightarrow> tree \<Rightarrow> tree option" where
  "assignment_target (Tree n cs) v =
     (if n = ''variable'' then
        (case cs of [x] \<Rightarrow> Some (Tree ''assignment'' [x, v]) | _ \<Rightarrow> None)
      else if n = ''get'' then
        (case cs of [obj, x] \<Rightarrow> Some (Tree ''set'' [obj, x, v]) | _ \<Rightarrow> None)
      else None)"
| "assignment_target _ v = None"

text \<open>
  Modelled from the spec: the text of the message with which the syntax error is
  reported. The grammar file contains no messages.
\<close>

definition invalid_assignment_target :: string where
  "invalid_assignment_target = ''invalid assignment target''"

text \<open>
  The step with its report: the node that takes the place of the left-hand side, or the
  syntax error with its message and the tokens that are left unconsumed when it is
  reported. \<open>left\<close> are the tokens that follow the left-hand side, the \<^verbatim>\<open>=\<close> first.
\<close>

datatype step_result = Converted tree | SyntaxError string "terminal list"

definition assignment_step :: "tree \<Rightarrow> terminal list \<Rightarrow> tree \<Rightarrow> step_result" where
  "assignment_step lt left rt =
     (case assignment_target lt rt of
        Some t \<Rightarrow> Converted t
      | None \<Rightarrow> SyntaxError invalid_assignment_target left)"

text \<open>
  Where a parser for the grammar reports a syntax error in an expression. Reading from
  the left, it can consume a token as long as what it has read is the beginning of some
  expression; the error is at the first token with which that fails, and this token is
  not consumed. \<open>syntax_error_at ts n\<close>: the error is at token number \<open>n\<close> of \<open>ts\<close>,
  counting from 0.
\<close>

definition begins_expression :: "terminal list \<Rightarrow> bool" where
  "begins_expression ts = (\<exists>rest t. expression (ts @ rest) t)"

definition syntax_error_at :: "terminal list \<Rightarrow> nat \<Rightarrow> bool" where
  "syntax_error_at ts n =
     (n < length ts \<and> begins_expression (take n ts) \<and> \<not> begins_expression (take (Suc n) ts))"

subsection \<open>Lists separated by commas\<close>



definition name_tokens :: "string list \<Rightarrow> tree list" where
  "name_tokens xs = map (\<lambda>x. Tok (IDENTIFIER x)) xs"
subsection \<open>Concrete programs\<close>

definition var :: "string \<Rightarrow> tree" where
  "var x = Tree ''variable'' [Tok (IDENTIFIER x)]"

definition num :: "string \<Rightarrow> tree" where
  "num n = Tree ''literal'' [Tok (NUMBER n)]"





text \<open>\<^verbatim>\<open>class B < A { m() { super.m(); } }\<close>\<close>

definition demo_super_tokens :: "terminal list" where
  "demo_super_tokens =
     [Str ''class'', IDENTIFIER ''B'', Str ''<'', IDENTIFIER ''A'', Str ''{'',
      IDENTIFIER ''m'', Str ''('', Str '')'', Str ''{'',
      Str ''super'', Str ''.'', IDENTIFIER ''m'', Str ''('', Str '')'', Str '';'',
      Str ''}'', Str ''}'']"

definition demo_super_tree :: tree where
  "demo_super_tree =
     Tree ''program''
       [Tree ''class_declaration''
          [Tok (IDENTIFIER ''B''), var ''A'',
           Tree ''function''
             [Tok (IDENTIFIER ''m''), NoneT,
              Tree ''block''
                [Tree ''expression_statement''
                   [Tree ''call''
                      [Tree ''super'' [Tok (Str ''super''), Tok (IDENTIFIER ''m'')],
                       NoneT, Tok (Str '')'')]]]]]]"



section \<open>Parts of the interpreter that are described but not among the sources\<close>

subsection \<open>The desugaring of for statements\<close>

text \<open>
  Modelled from the spec: the step of the parser that turns the parse tree of a
  \<^verbatim>\<open>for\<close> statement into a block with a \<^verbatim>\<open>while\<close> loop. The grammar file only says that
  the statement is desugared; the code that transforms parse trees is not among the
  sources. In the words of the specification, \<^verbatim>\<open>for (init; cond; incr) body\<close> becomes
  \<^verbatim>\<open>{ init; while (cond') { body; incr?; } }\<close>, where \<^verbatim>\<open>cond'\<close> is the literal true when the
  condition is omitted, the increment is appended as an expression statement inside
  the loop body only if present, and the initializer is left out if the
  \<^verbatim>\<open>empty_initializer\<close> alternative was taken.
\<close>

definition literal_true :: tree where
  "literal_true = Tree ''literal'' [Tree ''const_true'' []]"

fun is_empty_initializer :: "tree \<Rightarrow> bool" where
  "is_empty_initializer (Tree n cs) = (n = ''empty_initializer'')"
| "is_empty_initializer _ = False"

definition desugar_for :: "tree \<Rightarrow> tree \<Rightarrow> tree \<Rightarrow> tree \<Rightarrow> tree" where
  "desugar_for init cond incr body =
     Tree ''block''
       ((if is_empty_initializer init then [] else [init]) @
        [Tree ''while_statement''
           [if cond = NoneT then literal_true else cond,
            Tree ''block''
              (body # (if incr = NoneT then [] else [Tree ''expression_statement'' [incr]]))]])"

text \<open>
  Modelled from the spec: the parser's result for a whole tree, with every \<^verbatim>\<open>for\<close>
  statement in it desugared.
\<close>

fun desugar :: "tree \<Rightarrow> tree" where
  "desugar (Tree n cs) =
     (if n = ''for_statement'' then
        (case map desugar cs of
           [init, cond, incr, body] \<Rightarrow> desugar_for init cond incr body
         | cs' \<Rightarrow> Tree n cs')
      else Tree n (map desugar cs))"
| "desugar t = t"




definition demo_while_tokens :: "terminal list" where
  "demo_while_tokens =
     [Str ''{'', Str ''var'', IDENTIFIER ''i'', Str ''='', NUMBER ''0'', Str '';'',
      Str ''while'', Str ''('', IDENTIFIER ''i'', Str ''<'', NUMBER ''3'', Str '')'',
      Str ''{'', Str ''print'', IDENTIFIER ''i'', Str '';'',
      IDENTIFIER ''i'', Str ''='', IDENTIFIER ''i'', Str ''+'', NUMBER ''1'', Str '';'',
      Str ''}'', Str ''}'']"



subsection \<open>The limit on arguments and parameters\<close>

text \<open>
  Modelled from the spec: the check of the parser that reports a call with more than 255
  arguments and a function or method declaration with more than 255 parameters. The
  grammar has no such limit and the code that makes the check is not among the sources.
  The report is a list of errors beside the tree: the tree is built all the same, and
  the errors of all its parts are collected.
\<close>

datatype parse_error = TooManyArguments | TooManyParameters

definition max_arity :: nat where
  "max_arity = 255"

fun node_errors :: "tree \<Rightarrow> parse_error list" where
  "node_errors (Tree n cs) =
     (if n = ''arguments'' \<and> max_arity < length cs then [TooManyArguments]
      else if n = ''parameters'' \<and> max_arity < length cs then [TooManyParameters]
      else [])"
| "node_errors _ = []"

fun arity_errors :: "tree \<Rightarrow> parse_error list" where
  "arity_errors (Tree n cs) = node_errors (Tree n cs) @ concat (map arity_errors cs)"
| "arity_errors _ = []"

subsection \<open>The lexer\<close>

text \<open>
  Modelled from the spec: the lexer. The terminals \<^verbatim>\<open>NUMBER\<close>, \<^verbatim>\<open>STRING\<close> and
  \<^verbatim>\<open>IDENTIFIER\<close> are imported by the grammar file from the parser generator's library,
  and the hand-written scanner that \<^verbatim>\<open>compile\<close> calls is not among the sources either.
  The model follows the specification: a single pass over the characters that skips
  blanks and newlines (a newline increments the line counter) and line comments, reads
  a number as one or more digits optionally followed by a dot and one or more digits,
  reads a string from a double quote to the next double quote that is not part of one
  of the two escapes backslash-quote and backslash-backslash, over any number of lines,
  reads an identifier and checks it against the keywords, matches the two-character
  operators greedily, and reports an unterminated string and an unexpected character as
  errors with their line while it goes on.
\<close>

datatype lex_error = UnterminatedString | UnexpectedCharacter char

datatype lex_item = Lexeme terminal nat | LexError lex_error nat | EndOfFile nat

definition is_digit :: "char \<Rightarrow> bool" where
  "is_digit c = (c \<in> set ''0123456789'')"

definition is_alpha :: "char \<Rightarrow> bool" where
  "is_alpha c = (c \<in> set ''abcdefghijklmnopqrstuvwxyzABCDEFGHIJKLMNOPQRSTUVWXYZ_'')"

definition is_alnum :: "char \<Rightarrow> bool" where
  "is_alnum c = (is_alpha c \<or> is_digit c)"

definition keyword_set :: "string list" where
  "keyword_set = [''and'', ''class'', ''else'', ''false'', ''for'', ''fun'', ''if'', ''nil'', ''or'',
     ''print'', ''return'', ''super'', ''this'', ''true'', ''var'', ''while'']"

definition newline :: char where
  "newline = CHR 0x0A"

definition quote :: char where
  "quote = CHR 0x22"

definition backslash :: char where
  "backslash = CHR 0x5C"

definition is_blank :: "char \<Rightarrow> bool" where
  "is_blank c = (c = CHR '' '' \<or> c = CHR 0x09 \<or> c = CHR 0x0D)"

definition comment_start :: "char \<Rightarrow> string \<Rightarrow> bool" where
  "comment_start c cs = (c = CHR ''/'' \<and> take 1 cs = ''/'')"

definition two_char_operator :: "char \<Rightarrow> string \<Rightarrow> bool" where
  "two_char_operator c cs = (c \<in> set ''!=<>'' \<and> take 1 cs = ''='')"

definition one_char_token :: "char \<Rightarrow> bool" where
  "one_char_token c = (c \<in> set ''(){},.-+;*/!=<>'')"

text \<open>
  Modelled from the spec: the rest of a number after its first digit. The dot belongs
  to the number only when a digit follows it.
\<close>

definition fraction_follows :: "string \<Rightarrow> bool" where
  "fraction_follows r = (case r of d # f # r2 \<Rightarrow> d = CHR ''.'' \<and> is_digit f | _ \<Rightarrow> False)"

definition number_end :: "string \<Rightarrow> string \<times> string" where
  "number_end cs =
     (let ds = takeWhile is_digit cs; r1 = dropWhile is_digit cs in
      if fraction_follows r1
      then (ds @ take 2 r1 @ takeWhile is_digit (drop 2 r1), dropWhile is_digit (drop 2 r1))
      else (ds, r1))"

text \<open>
  Modelled from the spec: the rest of a string after its opening quote, up to the closing
  quote: the text between the quotes and the input after the closing quote, or \<open>None\<close>
  when the input ends first.
\<close>

fun string_end :: "string \<Rightarrow> (string \<times> string) option" where
  "string_end [] = None"
| "string_end [c] = (if c = quote then Some ([], []) else None)"
| "string_end (c # d # cs) =
     (if c = quote then Some ([], d # cs)
      else if c = backslash \<and> (d = quote \<or> d = backslash) then
        (case string_end cs of None \<Rightarrow> None | Some (body, rest) \<Rightarrow> Some (c # d # body, rest))
      else
        (case string_end (d # cs) of None \<Rightarrow> None | Some (body, rest) \<Rightarrow> Some (c # body, rest)))"

lemma number_end_length: "length (snd (number_end cs)) \<le> length cs"
proof -
  let ?r1 = "dropWhile is_digit cs"
  have 1: "length ?r1 \<le> length cs" by (rule length_dropWhile_le)
  have "length (dropWhile is_digit (drop 2 ?r1)) \<le> length (drop 2 ?r1)"
    by (rule length_dropWhile_le)
  also have "\<dots> \<le> length ?r1" by simp
  finally have 2: "length (dropWhile is_digit (drop 2 ?r1)) \<le> length cs" using 1 by simp
  from 1 2 show ?thesis by (simp add: number_end_def Let_def)
qed

lemma string_end_length: "string_end cs = Some (body, rest) \<Longrightarrow> length rest < length cs"
  by (induction cs arbitrary: body rest rule: string_end.induct)
     (fastforce split: if_splits option.splits)+

text \<open>
  Modelled from the spec: the lexer, from the input that is left and the current line to
  the list of tokens and errors, each with its line, closed by the end-of-file token.
  The specification does not say which line a string that spans several lines carries;
  the model gives every token the line on which it starts.
\<close>

function lexer :: "string \<Rightarrow> nat \<Rightarrow> lex_item list" where
  "lexer [] line = [EndOfFile line]"
| "lexer (c # cs) line =
     (if is_blank c then lexer cs line
      else if c = newline then lexer cs (Suc line)
      else if comment_start c cs then lexer (dropWhile (\<lambda>x. x \<noteq> newline) (tl cs)) line
      else if is_digit c then
        Lexeme (NUMBER (c # fst (number_end cs))) line # lexer (snd (number_end cs)) line
      else if c = quote then
        (case string_end cs of
           None \<Rightarrow> [LexError UnterminatedString line, EndOfFile (line + count_list cs newline)]
         | Some (body, rest) \<Rightarrow>
             Lexeme (STRING (c # body @ [quote])) line # lexer rest (line + count_list body newline))
      else if is_alpha c then
        (let name = c # takeWhile is_alnum cs in
         Lexeme (if name \<in> set keyword_set then Str name else IDENTIFIER name) line
           # lexer (dropWhile is_alnum cs) line)
      else if two_char_operator c cs then Lexeme (Str [c, CHR ''='']) line # lexer (tl cs) line
      else if one_char_token c then Lexeme (Str [c]) line # lexer cs line
      else LexError (UnexpectedCharacter c) line # lexer cs line)"
  by pat_completeness auto
termination
proof (relation "measure (\<lambda>(s, l). length s)", goal_cases)
  case 1
  then show ?case by simp
next
  case (2 c cs line)
  then show ?case by simp
next
  case (3 c cs line)
  then show ?case by simp
next
  case (4 c cs line)
  have "length (dropWhile (\<lambda>x. x \<noteq> newline) (tl cs)) \<le> length (tl cs)"
    by (rule length_dropWhile_le)
  then show ?case by simp
next
  case (5 c cs line)
  then show ?case using number_end_length[of cs] by simp
next
  case (6 c cs line x2 x y)
  then show ?case using string_end_length[of cs x y] by simp
next
  case (7 c cs line x)
  have "length (dropWhile is_alnum cs) \<le> length cs" by (rule length_dropWhile_le)
  then show ?case by simp
next
  case (8 c cs line)
  then show ?case by simp
next
  case (9 c cs line)
  then show ?case by simp
next
  case (10 c cs line)
  then show ?case by simp
qed

text \<open>
  The shape of a number in the words of the claim: one or more digits, then either
  nothing or a dot followed by one or more digits.
\<close>

definition number_shape :: "string \<Rightarrow> bool" where
  "number_shape n =
     (let ds = takeWhile is_digit n; r = dropWhile is_digit n in
      ds \<noteq> [] \<and>
      (r = [] \<or> (hd r = CHR ''.'' \<and> tl r \<noteq> [] \<and> (\<forall>c\<in>set (tl r). is_digit c))))"

text \<open>
  The text between the quotes of a string in the words of the claim: a sequence of
  escapes backslash-quote and backslash-backslash and of characters other than the
  quote; a backslash before any other character is an ordinary character, and the
  text cannot end in a backslash that is not part of an escape, since that backslash
  would escape the closing quote.
\<close>

fun string_body_ok :: "string \<Rightarrow> bool" where
  "string_body_ok [] = True"
| "string_body_ok [c] = (c \<noteq> quote \<and> c \<noteq> backslash)"
| "string_body_ok (c # d # cs) =
     (if c = backslash \<and> (d = quote \<or> d = backslash) then string_body_ok cs
      else c \<noteq> quote \<and> string_body_ok (d # cs))"

text \<open>
  A string that reaches the end of the input without a closing quote, in the words of
  the claim: a quote closes the string when the text before it is the text of a string,
  and the input after the opening quote is unterminated when no position holds such a
  quote.
\<close>

definition closing_quote_at :: "string \<Rightarrow> nat \<Rightarrow> bool" where
  "closing_quote_at s n = (n < length s \<and> s ! n = quote \<and> string_body_ok (take n s))"

definition unterminated :: "string \<Rightarrow> bool" where
  "unterminated s = (\<forall>n<length s. \<not> closing_quote_at s n)"

section \<open>Properties of compile\<close>

lemma nth_token_Suc:
  "nth_token scanToken sc (Suc n) = nth_token scanToken (snd (scanToken sc)) n"
  by (simp add: nth_token_def)

lemma map_nth_token_Suc:
  "map (nth_token scanToken sc) [0..<Suc (Suc k)] =
     fst (scanToken sc) # map (nth_token scanToken (snd (scanToken sc))) [0..<Suc k]"
proof -
  have "[0..<Suc (Suc k)] = 0 # map Suc [0..<Suc k]"
    by (simp only: map_Suc_upt upt_conv_Cons[of 0 "Suc (Suc k)"])
  then show ?thesis
    by (simp add: nth_token_Suc nth_token_def comp_def del: upt_Suc)
qed

lemma compile_loop_printed:
  "token_type (nth_token scanToken sc k) = TOKEN_EOF \<Longrightarrow>
   (\<forall>i<k. token_type (nth_token scanToken sc i) \<noteq> TOKEN_EOF) \<Longrightarrow>
   compile_loop scanToken TOKEN_EOF sc line0 out =
     Some (out @ printed line0 (map (nth_token scanToken sc) [0..<Suc k]))"
proof (induction k arbitrary: sc line0 out)
  case 0
  obtain token sc' where sc: "scanToken sc = (token, sc')" by (cases "scanToken sc")
  with 0 have "token_type token = TOKEN_EOF" by (simp add: nth_token_def)
  then show ?case
    by (subst compile_loop.simps) (simp add: sc nth_token_def Let_def)
next
  case (Suc k)
  obtain token sc' where sc: "scanToken sc = (token, sc')" by (cases "scanToken sc")
  from Suc.prems(2) have ne: "token_type token \<noteq> TOKEN_EOF"
    using sc by (auto simp: nth_token_def dest: spec[of _ 0])
  have eof': "token_type (nth_token scanToken sc' k) = TOKEN_EOF"
    using Suc.prems(1) sc by (simp add: nth_token_Suc)
  have before': "\<forall>i<k. token_type (nth_token scanToken sc' i) \<noteq> TOKEN_EOF"
    using Suc.prems(2) sc by (auto simp: nth_token_Suc dest: spec[of _ "Suc i" for i])
  note IH = Suc.IH[OF eof' before']
  show ?case
    by (subst compile_loop.simps) (simp add: sc ne IH map_nth_token_Suc Let_def del: upt_Suc)
qed

lemma printed_listing: "printed (token_line p) ts = listing (Some p) ts"
  by (induction ts arbitrary: p) auto

lemma printed_first: "token_line t \<noteq> - 1 \<Longrightarrow> printed (- 1) (t # ts) = listing None (t # ts)"
  by (simp add: printed_listing)

lemma printed_Cons_listing:
  "printed l (t # ts) =
     (if token_line t = l then ''   | '' else printf_d 4 (token_line t) @ '' '') @
     print_token t @ listing (Some t) ts"
  by (simp add: printed_listing)

lemma map_nth_token_first:
  "map (nth_token scanToken sc) [0..<Suc k] =
     nth_token scanToken sc 0 # map (nth_token scanToken sc) [Suc 0..<Suc k]"
  by (simp only: upt_conv_Cons[of 0 "Suc k"]) simp

text \<open>
  Claim C10, amended. If call number \<open>k\<close> of \<^verbatim>\<open>scanToken\<close> is the first to return a token
  of type \<^verbatim>\<open>TOKEN_EOF\<close>, then \<^verbatim>\<open>compile\<close> returns, and what it has printed is one record
  per token for the tokens \<open>0 .. k\<close>, up to and including that first end-of-file token.
  The record of the first token starts with its line number unless that number is \<open>-1\<close>,
  the initial value of the local \<^verbatim>\<open>line\<close>, in which case it starts with the filler; every
  later record starts with the token's line number exactly when the line differs from
  the line of the token printed before it, and with the filler otherwise. So whenever
  the first line number is not \<open>-1\<close>, the output is the listing in which the first token
  shows its line number.
\<close>

theorem compile_prints_tokens_until_EOF:
  assumes "token_type (nth_token scanToken (initScanner source) k) = TOKEN_EOF"
    and "\<forall>i<k. token_type (nth_token scanToken (initScanner source) i) \<noteq> TOKEN_EOF"
  shows "compile initScanner scanToken TOKEN_EOF source =
           Some ((if token_line (nth_token scanToken (initScanner source) 0) = - 1
                  then ''   | ''
                  else printf_d 4 (token_line (nth_token scanToken (initScanner source) 0)) @
                       '' '') @
                 print_token (nth_token scanToken (initScanner source) 0) @
                 listing (Some (nth_token scanToken (initScanner source) 0))
                   (map (nth_token scanToken (initScanner source)) [Suc 0..<Suc k])) \<and>
         (token_line (nth_token scanToken (initScanner source) 0) \<noteq> - 1 \<longrightarrow>
          compile initScanner scanToken TOKEN_EOF source =
            Some (listing None (map (nth_token scanToken (initScanner source)) [0..<Suc k])))"
proof -
  let ?sc = "initScanner source"
  let ?t0 = "nth_token scanToken ?sc 0"
  let ?rest = "map (nth_token scanToken ?sc) [Suc 0..<Suc k]"
  have c: "compile initScanner scanToken TOKEN_EOF source = Some (printed (- 1) (?t0 # ?rest))"
    using compile_loop_printed[OF assms, of "- 1" "[]"]
    by (simp only: compile_def map_nth_token_first[of scanToken ?sc k]) simp
  have l: "token_line ?t0 \<noteq> - 1 \<Longrightarrow> printed (- 1) (?t0 # ?rest) = listing None (?t0 # ?rest)"
    by (rule printed_first)
  show ?thesis
    unfolding c map_nth_token_first[of scanToken ?sc k]
    using l by (simp only: printed_Cons_listing) simp
qed

text \<open>
  The theorem at a concrete run: the source \<^verbatim>\<open>print 1\<close>, newline, \<^verbatim>\<open>;\<close> with a scanner
  that yields four tokens on lines 1, 1, 2, 2.
\<close>

theorem compile_prints_tokens_until_EOF_witness:
  "compile demo_tokens canned 39 (''print 1'' @ [CHR 0x0A] @ '';'') =
     Some (''   1 31 '' @ [CHR 0x27] @ ''print'' @ [CHR 0x27, CHR 0x0A] @
           ''   | 21 '' @ [CHR 0x27] @ ''1'' @ [CHR 0x27, CHR 0x0A] @
           ''   2  8 '' @ [CHR 0x27] @ '';'' @ [CHR 0x27, CHR 0x0A] @
           ''   | 39 '' @ [CHR 0x27, CHR 0x27, CHR 0x0A])"
proof -
  let ?src = "''print 1'' @ [CHR 0x0A] @ '';''"
  have eof: "token_type (nth_token canned (demo_tokens ?src) 3) = 39"
    by code_simp
  have before: "\<forall>i<3. token_type (nth_token canned (demo_tokens ?src) i) \<noteq> 39"
    by code_simp
  have first: "token_line (nth_token canned (demo_tokens ?src) 0) \<noteq> - 1"
    by code_simp
  have out: "listing None (map (nth_token canned (demo_tokens ?src)) [0..<Suc 3]) =
      ''   1 31 '' @ [CHR 0x27] @ ''print'' @ [CHR 0x27, CHR 0x0A] @
      ''   | 21 '' @ [CHR 0x27] @ ''1'' @ [CHR 0x27, CHR 0x0A] @
      ''   2  8 '' @ [CHR 0x27] @ '';'' @ [CHR 0x27, CHR 0x0A] @
      ''   | 39 '' @ [CHR 0x27, CHR 0x27, CHR 0x0A]"
    by code_simp
  from compile_prints_tokens_until_EOF[of canned demo_tokens ?src 3 39, OF eof before] first
  have "compile demo_tokens canned 39 ?src =
      Some (listing None (map (nth_token canned (demo_tokens ?src)) [0..<Suc 3]))"
    by blast
  with out show ?thesis by simp
qed

text \<open>
  The claim as it was stated has the first token always show its line number. When the
  scanner reports its first token on line \<open>-1\<close>, the first record starts with the filler
  instead: for a scanner whose only token is the end-of-file token on that line,
  \<^verbatim>\<open>compile\<close> prints the filler and not the listing that starts with the line number.
\<close>

theorem compile_first_line_minus_one:
  "token_type (nth_token canned (minus_one_tokens []) 0) = 39 \<and>
   compile minus_one_tokens canned 39 [] =
     Some (''   | 39 '' @ [CHR 0x27, CHR 0x27, CHR 0x0A]) \<and>
   listing None (map (nth_token canned (minus_one_tokens [])) [0..<Suc 0]) =
     ''  -1 39 '' @ [CHR 0x27, CHR 0x27, CHR 0x0A] \<and>
   compile minus_one_tokens canned 39 [] \<noteq>
     Some (listing None (map (nth_token canned (minus_one_tokens [])) [0..<Suc 0]))"
  by code_simp

section \<open>Properties of the expression grammar\<close>

lemmas expr_inducts =
  expression_assignment_logic_or_logic_and_equality_comparison_term'_factor_unary_expr_call_arguments_primary.inducts

lemmas stmt_inducts =
  declaration'_declarations_class_declaration_methods_method'_function_declaration_function'_statement_for_statement_if_statement_while_statement_block.inducts

lemmas operator_defs = equality_operator_def comparison_operator_def addition_operator_def
  multipication_operator_def unary_operator_def logic_or_operator_def logic_and_operator_def

lemmas lift = expression_1 assignment_1 logic_or_1 logic_and_1 equality_1 comparison_1
  term_1 factor_1 unary_expr_1 call_1

lemma primary_var: "primary [IDENTIFIER x] (var x)"
  unfolding var_def by (rule primary_variable)

lemma from_primary:
  assumes "primary ts t"
  shows "call ts t" and "unary_expr ts t" and "factor ts t" and "term' ts t"
    and "comparison ts t" and "equality ts t" and "logic_and ts t" and "logic_or ts t"
    and "assignment ts t" and "expression ts t"
  using assms by (intro lift; assumption)+

lemmas var_at = from_primary[OF primary_var]

lemma primary_num: "primary [NUMBER n] (num n)"
  unfolding num_def by (rule primary_number)

lemmas num_at = from_primary[OF primary_num]

subsection \<open>Logical and binary nodes\<close>





subsection \<open>Precedence and associativity\<close>





subsection \<open>The keyword super\<close>

lemma super_ok_Nil [simp]: "super_ok []"
  by (simp add: super_ok_def)

lemma super_ok_append: "super_ok xs \<Longrightarrow> super_ok ys \<Longrightarrow> super_ok (xs @ ys)"
proof -
  assume xs: "super_ok xs" and ys: "super_ok ys"
  show ?thesis
    unfolding super_ok_def
  proof (intro allI impI)
    fix i assume i: "i < length (xs @ ys)" and s: "(xs @ ys) ! i = Str ''super''"
    show "Suc (Suc i) < length (xs @ ys) \<and> (xs @ ys) ! Suc i = Str ''.'' \<and>
          is_identifier ((xs @ ys) ! Suc (Suc i))"
    proof (cases "i < length xs")
      case True
      with s have "xs ! i = Str ''super''" by (simp add: nth_append)
      with xs True have "Suc (Suc i) < length xs \<and> xs ! Suc i = Str ''.'' \<and>
          is_identifier (xs ! Suc (Suc i))"
        by (simp add: super_ok_def)
      then show ?thesis by (simp add: nth_append)
    next
      case False
      then have j: "i - length xs < length ys" using i by simp
      from False s have "ys ! (i - length xs) = Str ''super''" by (simp add: nth_append)
      with ys j have "Suc (Suc (i - length xs)) < length ys \<and>
          ys ! Suc (i - length xs) = Str ''.'' \<and> is_identifier (ys ! Suc (Suc (i - length xs)))"
        by (simp add: super_ok_def)
      moreover from False have "Suc (Suc i) - length xs = Suc (Suc (i - length xs))"
        and "Suc i - length xs = Suc (i - length xs)" by simp_all
      moreover from False have "\<not> Suc i < length xs" "\<not> Suc (Suc i) < length xs" by simp_all
      ultimately show ?thesis by (auto simp: nth_append)
    qed
  qed
qed

lemma super_ok_single: "t \<noteq> Str ''super'' \<Longrightarrow> super_ok [t]"
  by (simp add: super_ok_def)

lemma super_ok_Cons: "t \<noteq> Str ''super'' \<Longrightarrow> super_ok ts \<Longrightarrow> super_ok (t # ts)"
  using super_ok_append[of "[t]" ts] by (simp add: super_ok_single)

lemma super_ok_super: "super_ok [Str ''super'', Str ''.'', IDENTIFIER x]"
  by (simp add: super_ok_def less_Suc_eq)

lemma super_ok_expr:
  shows "expression ts t \<Longrightarrow> super_ok ts"
    and "assignment ts t \<Longrightarrow> super_ok ts"
    and "logic_or ts t \<Longrightarrow> super_ok ts"
    and "logic_and ts t \<Longrightarrow> super_ok ts"
    and "equality ts t \<Longrightarrow> super_ok ts"
    and "comparison ts t \<Longrightarrow> super_ok ts"
    and "term' ts t \<Longrightarrow> super_ok ts"
    and "factor ts t \<Longrightarrow> super_ok ts"
    and "unary_expr ts t \<Longrightarrow> super_ok ts"
    and "call ts t \<Longrightarrow> super_ok ts"
    and "arguments ts tas \<Longrightarrow> super_ok ts"
    and "primary ts t \<Longrightarrow> super_ok ts"
proof (induction rule: expr_inducts)
qed (auto simp: operator_defs super_ok_super intro!: super_ok_append super_ok_Cons)

lemma super_ok_opt: "opt_expression ts t \<Longrightarrow> super_ok ts"
  by (induction rule: opt_expression.induct) (auto simp: super_ok_expr)

lemma super_ok_parameters: "parameters ts t \<Longrightarrow> super_ok ts"
  by (induction rule: parameters.induct) (auto intro!: super_ok_append super_ok_Cons)

lemma super_ok_simple:
  shows "variable_declaration ts t \<Longrightarrow> super_ok ts"
    and "expression_statement ts t \<Longrightarrow> super_ok ts"
    and "print_statement' ts t \<Longrightarrow> super_ok ts"
    and "return_statement ts t \<Longrightarrow> super_ok ts"
  by (auto elim!: variable_declaration.cases expression_statement.cases print_statement'.cases
        return_statement.cases
      simp: super_ok_expr super_ok_opt intro!: super_ok_append super_ok_Cons)

lemma super_ok_for_initializer: "for_initializer ts t \<Longrightarrow> super_ok ts"
  by (auto elim!: for_initializer.cases simp: super_ok_simple intro!: super_ok_Cons)

lemma super_ok_stmt:
  shows "declaration' ts t \<Longrightarrow> super_ok ts"
    and "declarations ts tds \<Longrightarrow> super_ok ts"
    and "class_declaration ts t \<Longrightarrow> super_ok ts"
    and "methods ts tms \<Longrightarrow> super_ok ts"
    and "method' ts t \<Longrightarrow> super_ok ts"
    and "function_declaration ts t \<Longrightarrow> super_ok ts"
    and "function' ts cs \<Longrightarrow> super_ok ts"
    and "statement ts t \<Longrightarrow> super_ok ts"
    and "for_statement ts t \<Longrightarrow> super_ok ts"
    and "if_statement ts t \<Longrightarrow> super_ok ts"
    and "while_statement ts t \<Longrightarrow> super_ok ts"
    and "block ts t \<Longrightarrow> super_ok ts"
proof (induction rule: stmt_inducts)
qed (auto simp: super_ok_expr super_ok_opt super_ok_parameters super_ok_simple
       super_ok_for_initializer intro!: super_ok_append super_ok_Cons)

lemma super_ok_program: "program ts t \<Longrightarrow> super_ok ts"
  by (auto elim!: program.cases simp: super_ok_stmt)

text \<open>
  Claim C7. In every token list that the grammar accepts as a program, each occurrence
  of the keyword \<^verbatim>\<open>super\<close> is followed by a dot and an identifier, and these three
  tokens are the primary expression that yields a \<^verbatim>\<open>super\<close> node. So a program with a
  \<^verbatim>\<open>super\<close> that is not followed by a dot and an identifier has no parse.
\<close>

theorem super_only_before_dot_identifier:
  assumes "program ts t" and "i < length ts" and "ts ! i = Str ''super''"
  shows "Suc (Suc i) < length ts \<and> ts ! Suc i = Str ''.'' \<and> is_identifier (ts ! Suc (Suc i)) \<and>
         (\<exists>x. primary [ts ! i, ts ! Suc i, ts ! Suc (Suc i)]
                 (Tree ''super'' [Tok (Str ''super''), Tok (IDENTIFIER x)]))"
proof -
  from super_ok_program[OF assms(1)] assms(2,3)
  have 1: "Suc (Suc i) < length ts \<and> ts ! Suc i = Str ''.'' \<and> is_identifier (ts ! Suc (Suc i))"
    by (simp add: super_ok_def)
  then obtain x where "ts ! Suc (Suc i) = IDENTIFIER x"
    by (cases "ts ! Suc (Suc i)") auto
  with 1 assms(3) primary_super[of x] show ?thesis by auto
qed

lemma demo_super_parse: "program demo_super_tokens demo_super_tree"
proof -
  let ?sup = "Tree ''super'' [Tok (Str ''super''), Tok (IDENTIFIER ''m'')]"
  let ?call = "Tree ''call'' [?sup, NoneT, Tok (Str '')'')]"
  let ?stmt = "Tree ''expression_statement'' [?call]"
  let ?fn = "[Tok (IDENTIFIER ''m''), NoneT, Tree ''block'' [?stmt]]"
  have "call ([Str ''super'', Str ''.'', IDENTIFIER ''m''] @ [Str ''('', Str '')'']) ?call"
    by (rule call_2_none) (rule from_primary, rule primary_super)
  then have "expression ([Str ''super'', Str ''.'', IDENTIFIER ''m''] @ [Str ''('', Str '')'']) ?call"
    by (intro expression_1 assignment_1 logic_or_1 logic_and_1 equality_1 comparison_1 term_1
          factor_1 unary_expr_1)
  then have "expression_statement
      (([Str ''super'', Str ''.'', IDENTIFIER ''m''] @ [Str ''('', Str '')'']) @ [Str '';'']) ?stmt"
    by (rule expression_statement_1)
  then have "declaration' (drop 9 (take 15 demo_super_tokens)) ?stmt"
    by (simp add: demo_super_tokens_def declaration_4 statement_1)
  from declarations_1[OF declarations_0 this]
  have "block (Str ''{'' # drop 9 (take 15 demo_super_tokens) @ [Str ''}'']) (Tree ''block'' [?stmt])"
    using block_1[of "drop 9 (take 15 demo_super_tokens)" "[?stmt]"] by simp
  from function_none[OF this, of "''m''"]
  have "function' (drop 5 (take 16 demo_super_tokens)) ?fn"
    by (simp add: demo_super_tokens_def)
  from methods_1[OF methods_0 method_1[OF this]]
  have "methods (drop 5 (take 16 demo_super_tokens)) [Tree ''function'' ?fn]" by simp
  from class_declaration_2[OF this, of "''B''" "''A''"]
  have "declaration' demo_super_tokens
          (Tree ''class_declaration'' [Tok (IDENTIFIER ''B''), var ''A'', Tree ''function'' ?fn])"
    by (simp add: demo_super_tokens_def var_def declaration_1)
  from declarations_1[OF declarations_0 this]
  show ?thesis
    using program_1[of demo_super_tokens] by (simp add: demo_super_tree_def)
qed

theorem super_only_before_dot_identifier_witness:
  "program demo_super_tokens demo_super_tree \<and>
   demo_super_tokens ! 9 = Str ''super'' \<and> demo_super_tokens ! 10 = Str ''.'' \<and>
   demo_super_tokens ! 11 = IDENTIFIER ''m''"
proof -
  have i: "9 < length demo_super_tokens" and s: "demo_super_tokens ! 9 = Str ''super''"
    by (simp_all add: demo_super_tokens_def)
  from super_only_before_dot_identifier[OF demo_super_parse i s] demo_super_parse s
  show ?thesis by (simp add: demo_super_tokens_def)
qed

subsection \<open>Assignment targets\<close>

lemma bal_append:
  "bal (xs @ ys) d = (case bal xs d of None \<Rightarrow> None | Some d' \<Rightarrow> bal ys d')"
  by (induction xs arbitrary: d) (auto split: nat.splits)

lemma balanced_Nil [simp]: "balanced []"
  by (simp add: balanced_def)

lemma balanced_append: "balanced xs \<Longrightarrow> balanced ys \<Longrightarrow> balanced (xs @ ys)"
  by (simp add: balanced_def bal_append)

lemma balanced_Cons:
  "t \<noteq> Str ''('' \<Longrightarrow> t \<noteq> Str '')'' \<Longrightarrow> balanced ts \<Longrightarrow> balanced (t # ts)"
  by (simp add: balanced_def)

lemma balanced_parens: "balanced e \<Longrightarrow> balanced (Str ''('' # e @ [Str '')''])"
  by (simp add: balanced_def bal_append)

lemma balanced_unit: "balanced [Str ''('', Str '')'']"
  by (simp add: balanced_def)

lemma top_level_append_gen:
  "bal xs d = Some d' \<Longrightarrow> top_level d (xs @ ys) = top_level d xs @ top_level d' ys"
  by (induction xs arbitrary: d) (auto split: nat.splits if_splits)

lemma top_level_deep: "bal xs d = Some d' \<Longrightarrow> d < n \<Longrightarrow> top_level n xs = []"
proof (induction xs arbitrary: d n)
  case Nil
  then show ?case by simp
next
  case (Cons t ts)
  show ?case
  proof (cases "t = Str ''(''")
    case True
    with Cons.prems have "bal ts (Suc d) = Some d'" by simp
    from Cons.IH[OF this, of "Suc n"] Cons.prems(2) True show ?thesis by simp
  next
    case nopen: False
    show ?thesis
    proof (cases "t = Str '')''")
      case True
      with nopen Cons.prems obtain d0 where d: "d = Suc d0" and b: "bal ts d0 = Some d'"
        by (auto split: nat.splits)
      from Cons.prems(2) d have "d0 < n - 1" by simp
      from Cons.IH[OF b this] True show ?thesis by simp
    next
      case False
      with nopen Cons.prems have "bal ts d = Some d'" by simp
      from Cons.IH[OF this Cons.prems(2)] nopen False Cons.prems(2) show ?thesis by simp
    qed
  qed
qed

lemma top_level_append:
  "balanced xs \<Longrightarrow> top_level 0 (xs @ ys) = top_level 0 xs @ top_level 0 ys"
  by (simp add: balanced_def top_level_append_gen)

lemma top_level_inside:
  "balanced e \<Longrightarrow> top_level (Suc 0) (e @ Str '')'' # r) = top_level 0 r"
proof -
  assume e: "balanced e"
  then have "bal e (Suc 0) = Some (Suc 0)" by (simp add: balanced_def)
  then have "top_level (Suc 0) (e @ Str '')'' # r) =
      top_level (Suc 0) e @ top_level (Suc 0) (Str '')'' # r)"
    by (rule top_level_append_gen)
  moreover from e have "top_level (Suc 0) e = []"
    by (intro top_level_deep[of e 0 0]) (simp_all add: balanced_def)
  ultimately show ?thesis by simp
qed

lemma top_level_parens:
  "balanced e \<Longrightarrow> top_level 0 (Str ''('' # e @ Str '')'' # r) = top_level 0 r"
  by (simp add: top_level_inside)

lemmas op_defs = operator_defs logic_operator_def binary_operator_def is_operator_def

lemma expr_shape:
  shows "expression ts t \<Longrightarrow> balanced ts \<and> ts \<noteq> []"
    and "assignment ts t \<Longrightarrow> balanced ts \<and> ts \<noteq> []"
    and "logic_or ts t \<Longrightarrow> balanced ts \<and> ts \<noteq> [] \<and> Str ''='' \<notin> set (top_level 0 ts)"
    and "logic_and ts t \<Longrightarrow> balanced ts \<and> ts \<noteq> [] \<and> Str ''='' \<notin> set (top_level 0 ts)"
    and "equality ts t \<Longrightarrow> balanced ts \<and> ts \<noteq> [] \<and> Str ''='' \<notin> set (top_level 0 ts)"
    and "comparison ts t \<Longrightarrow> balanced ts \<and> ts \<noteq> [] \<and> Str ''='' \<notin> set (top_level 0 ts)"
    and "term' ts t \<Longrightarrow> balanced ts \<and> ts \<noteq> [] \<and> Str ''='' \<notin> set (top_level 0 ts)"
    and "factor ts t \<Longrightarrow> balanced ts \<and> ts \<noteq> [] \<and> Str ''='' \<notin> set (top_level 0 ts)"
    and "unary_expr ts t \<Longrightarrow> balanced ts \<and> ts \<noteq> [] \<and> Str ''='' \<notin> set (top_level 0 ts)"
    and "call ts t \<Longrightarrow>
           balanced ts \<and> ts \<noteq> [] \<and> (\<forall>x\<in>set (top_level 0 ts). \<not> is_operator x)"
    and "arguments ts tas \<Longrightarrow> balanced ts"
    and "primary ts t \<Longrightarrow>
           balanced ts \<and> ts \<noteq> [] \<and> (\<forall>x\<in>set (top_level 0 ts). \<not> is_operator x)"
proof (induction rule: expr_inducts)
qed (simp_all add: op_defs top_level_append top_level_inside
       balanced_append balanced_Cons balanced_parens balanced_unit,
     auto simp: top_level_append balanced_append balanced_Cons)

lemma expr_single:
  shows "expression ts t \<Longrightarrow>
           ts \<noteq> [] \<and> (\<forall>x. ts = [IDENTIFIER x] \<longrightarrow> t = Tree ''variable'' [Tok (IDENTIFIER x)])"
    and "assignment ts t \<Longrightarrow>
           ts \<noteq> [] \<and> (\<forall>x. ts = [IDENTIFIER x] \<longrightarrow> t = Tree ''variable'' [Tok (IDENTIFIER x)])"
    and "logic_or ts t \<Longrightarrow>
           ts \<noteq> [] \<and> (\<forall>x. ts = [IDENTIFIER x] \<longrightarrow> t = Tree ''variable'' [Tok (IDENTIFIER x)])"
    and "logic_and ts t \<Longrightarrow>
           ts \<noteq> [] \<and> (\<forall>x. ts = [IDENTIFIER x] \<longrightarrow> t = Tree ''variable'' [Tok (IDENTIFIER x)])"
    and "equality ts t \<Longrightarrow>
           ts \<noteq> [] \<and> (\<forall>x. ts = [IDENTIFIER x] \<longrightarrow> t = Tree ''variable'' [Tok (IDENTIFIER x)])"
    and "comparison ts t \<Longrightarrow>
           ts \<noteq> [] \<and> (\<forall>x. ts = [IDENTIFIER x] \<longrightarrow> t = Tree ''variable'' [Tok (IDENTIFIER x)])"
    and "term' ts t \<Longrightarrow>
           ts \<noteq> [] \<and> (\<forall>x. ts = [IDENTIFIER x] \<longrightarrow> t = Tree ''variable'' [Tok (IDENTIFIER x)])"
    and "factor ts t \<Longrightarrow>
           ts \<noteq> [] \<and> (\<forall>x. ts = [IDENTIFIER x] \<longrightarrow> t = Tree ''variable'' [Tok (IDENTIFIER x)])"
    and "unary_expr ts t \<Longrightarrow>
           ts \<noteq> [] \<and> (\<forall>x. ts = [IDENTIFIER x] \<longrightarrow> t = Tree ''variable'' [Tok (IDENTIFIER x)])"
    and "call ts t \<Longrightarrow>
           ts \<noteq> [] \<and> (\<forall>x. ts = [IDENTIFIER x] \<longrightarrow> t = Tree ''variable'' [Tok (IDENTIFIER x)])"
    and "arguments ts tas \<Longrightarrow> ts \<noteq> []"
    and "primary ts t \<Longrightarrow>
           ts \<noteq> [] \<and> (\<forall>x. ts = [IDENTIFIER x] \<longrightarrow> t = Tree ''variable'' [Tok (IDENTIFIER x)])"
proof (induction rule: expr_inducts)
qed (simp_all add: operator_defs append_eq_Cons_conv)

lemma expr_variable:
  shows "expression ts t \<Longrightarrow> \<forall>cs. t = Tree ''variable'' cs \<longrightarrow> (\<exists>x. ts = [IDENTIFIER x] \<and> cs = [Tok (IDENTIFIER x)])"
    and "assignment ts t \<Longrightarrow> \<forall>cs. t = Tree ''variable'' cs \<longrightarrow> (\<exists>x. ts = [IDENTIFIER x] \<and> cs = [Tok (IDENTIFIER x)])"
    and "logic_or ts t \<Longrightarrow> \<forall>cs. t = Tree ''variable'' cs \<longrightarrow> (\<exists>x. ts = [IDENTIFIER x] \<and> cs = [Tok (IDENTIFIER x)])"
    and "logic_and ts t \<Longrightarrow> \<forall>cs. t = Tree ''variable'' cs \<longrightarrow> (\<exists>x. ts = [IDENTIFIER x] \<and> cs = [Tok (IDENTIFIER x)])"
    and "equality ts t \<Longrightarrow> \<forall>cs. t = Tree ''variable'' cs \<longrightarrow> (\<exists>x. ts = [IDENTIFIER x] \<and> cs = [Tok (IDENTIFIER x)])"
    and "comparison ts t \<Longrightarrow> \<forall>cs. t = Tree ''variable'' cs \<longrightarrow> (\<exists>x. ts = [IDENTIFIER x] \<and> cs = [Tok (IDENTIFIER x)])"
    and "term' ts t \<Longrightarrow> \<forall>cs. t = Tree ''variable'' cs \<longrightarrow> (\<exists>x. ts = [IDENTIFIER x] \<and> cs = [Tok (IDENTIFIER x)])"
    and "factor ts t \<Longrightarrow> \<forall>cs. t = Tree ''variable'' cs \<longrightarrow> (\<exists>x. ts = [IDENTIFIER x] \<and> cs = [Tok (IDENTIFIER x)])"
    and "unary_expr ts t \<Longrightarrow> \<forall>cs. t = Tree ''variable'' cs \<longrightarrow> (\<exists>x. ts = [IDENTIFIER x] \<and> cs = [Tok (IDENTIFIER x)])"
    and "call ts t \<Longrightarrow> \<forall>cs. t = Tree ''variable'' cs \<longrightarrow> (\<exists>x. ts = [IDENTIFIER x] \<and> cs = [Tok (IDENTIFIER x)])"
    and "arguments ts tas \<Longrightarrow> True"
    and "primary ts t \<Longrightarrow> \<forall>cs. t = Tree ''variable'' cs \<longrightarrow> (\<exists>x. ts = [IDENTIFIER x] \<and> cs = [Tok (IDENTIFIER x)])"
proof (induction rule: expr_inducts)
qed simp_all

lemma expr_get:
  shows "expression ts t \<Longrightarrow> \<forall>cs. t = Tree ''get'' cs \<longrightarrow>
           (\<exists>c tc x. ts = c @ [Str ''.'', IDENTIFIER x] \<and> cs = [tc, Tok (IDENTIFIER x)] \<and> call c tc)"
    and "assignment ts t \<Longrightarrow> \<forall>cs. t = Tree ''get'' cs \<longrightarrow>
           (\<exists>c tc x. ts = c @ [Str ''.'', IDENTIFIER x] \<and> cs = [tc, Tok (IDENTIFIER x)] \<and> call c tc)"
    and "logic_or ts t \<Longrightarrow> \<forall>cs. t = Tree ''get'' cs \<longrightarrow>
           (\<exists>c tc x. ts = c @ [Str ''.'', IDENTIFIER x] \<and> cs = [tc, Tok (IDENTIFIER x)] \<and> call c tc)"
    and "logic_and ts t \<Longrightarrow> \<forall>cs. t = Tree ''get'' cs \<longrightarrow>
           (\<exists>c tc x. ts = c @ [Str ''.'', IDENTIFIER x] \<and> cs = [tc, Tok (IDENTIFIER x)] \<and> call c tc)"
    and "equality ts t \<Longrightarrow> \<forall>cs. t = Tree ''get'' cs \<longrightarrow>
           (\<exists>c tc x. ts = c @ [Str ''.'', IDENTIFIER x] \<and> cs = [tc, Tok (IDENTIFIER x)] \<and> call c tc)"
    and "comparison ts t \<Longrightarrow> \<forall>cs. t = Tree ''get'' cs \<longrightarrow>
           (\<exists>c tc x. ts = c @ [Str ''.'', IDENTIFIER x] \<and> cs = [tc, Tok (IDENTIFIER x)] \<and> call c tc)"
    and "term' ts t \<Longrightarrow> \<forall>cs. t = Tree ''get'' cs \<longrightarrow>
           (\<exists>c tc x. ts = c @ [Str ''.'', IDENTIFIER x] \<and> cs = [tc, Tok (IDENTIFIER x)] \<and> call c tc)"
    and "factor ts t \<Longrightarrow> \<forall>cs. t = Tree ''get'' cs \<longrightarrow>
           (\<exists>c tc x. ts = c @ [Str ''.'', IDENTIFIER x] \<and> cs = [tc, Tok (IDENTIFIER x)] \<and> call c tc)"
    and "unary_expr ts t \<Longrightarrow> \<forall>cs. t = Tree ''get'' cs \<longrightarrow>
           (\<exists>c tc x. ts = c @ [Str ''.'', IDENTIFIER x] \<and> cs = [tc, Tok (IDENTIFIER x)] \<and> call c tc)"
    and "call ts t \<Longrightarrow> \<forall>cs. t = Tree ''get'' cs \<longrightarrow>
           (\<exists>c tc x. ts = c @ [Str ''.'', IDENTIFIER x] \<and> cs = [tc, Tok (IDENTIFIER x)] \<and> call c tc)"
    and "arguments ts tas \<Longrightarrow> True"
    and "primary ts t \<Longrightarrow> \<forall>cs. t = Tree ''get'' cs \<longrightarrow>
           (\<exists>c tc x. ts = c @ [Str ''.'', IDENTIFIER x] \<and> cs = [tc, Tok (IDENTIFIER x)] \<and> call c tc)"
proof (induction rule: expr_inducts)
qed simp_all

lemma top_level_mid:
  "balanced l \<Longrightarrow> op \<noteq> Str ''('' \<Longrightarrow> op \<noteq> Str '')'' \<Longrightarrow> op \<in> set (top_level 0 (l @ op # r))"
  by (simp add: top_level_append)

lemma is_operator_not_paren: "is_operator op \<Longrightarrow> op \<noteq> Str ''('' \<and> op \<noteq> Str '')''"
  by (auto simp: op_defs)

lemma binary_no_top:
  assumes "balanced l" and "is_operator op"
    and "\<forall>x\<in>set (top_level 0 (l @ op # r)). \<not> is_operator x"
  shows False
  using top_level_mid[OF assms(1), of op r] is_operator_not_paren[OF assms(2)] assms(2,3)
  by blast

lemma expr_call_level:
  shows "expression ts t \<Longrightarrow> (\<forall>x\<in>set (top_level 0 ts). \<not> is_operator x) \<longrightarrow> call ts t"
    and "assignment ts t \<Longrightarrow> (\<forall>x\<in>set (top_level 0 ts). \<not> is_operator x) \<longrightarrow> call ts t"
    and "logic_or ts t \<Longrightarrow> (\<forall>x\<in>set (top_level 0 ts). \<not> is_operator x) \<longrightarrow> call ts t"
    and "logic_and ts t \<Longrightarrow> (\<forall>x\<in>set (top_level 0 ts). \<not> is_operator x) \<longrightarrow> call ts t"
    and "equality ts t \<Longrightarrow> (\<forall>x\<in>set (top_level 0 ts). \<not> is_operator x) \<longrightarrow> call ts t"
    and "comparison ts t \<Longrightarrow> (\<forall>x\<in>set (top_level 0 ts). \<not> is_operator x) \<longrightarrow> call ts t"
    and "term' ts t \<Longrightarrow> (\<forall>x\<in>set (top_level 0 ts). \<not> is_operator x) \<longrightarrow> call ts t"
    and "factor ts t \<Longrightarrow> (\<forall>x\<in>set (top_level 0 ts). \<not> is_operator x) \<longrightarrow> call ts t"
    and "unary_expr ts t \<Longrightarrow> (\<forall>x\<in>set (top_level 0 ts). \<not> is_operator x) \<longrightarrow> call ts t"
    and "call ts t \<Longrightarrow> True"
    and "arguments ts tas \<Longrightarrow> True"
    and "primary ts t \<Longrightarrow> True"
proof (induction rule: expr_inducts)
  case (assignment_2 r rt x)
  then show ?case by (simp add: is_operator_def)
next
  case (assignment_3 c tc r rt x)
  from expr_shape(10)[OF assignment_3.hyps(1)] have "balanced c" by simp
  then have "Str ''='' \<in> set (top_level 0 (c @ Str ''.'' # IDENTIFIER x # Str ''='' # r))"
    by (simp add: top_level_append)
  then show ?case by (auto simp: is_operator_def)
next
  case (logic_or_2 l lt op r rt)
  from expr_shape(3)[OF logic_or_2.hyps(1)] have "balanced l" by simp
  moreover from logic_or_2.hyps(2) have "is_operator op" by (simp add: op_defs)
  ultimately show ?case using binary_no_top by blast
next
  case (logic_and_2 l lt op r rt)
  from expr_shape(4)[OF logic_and_2.hyps(1)] have "balanced l" by simp
  moreover from logic_and_2.hyps(2) have "is_operator op" by (simp add: op_defs)
  ultimately show ?case using binary_no_top by blast
next
  case (equality_2 l lt op r rt)
  from expr_shape(5)[OF equality_2.hyps(1)] have "balanced l" by simp
  moreover from equality_2.hyps(2) have "is_operator op" by (simp add: op_defs)
  ultimately show ?case using binary_no_top by blast
next
  case (comparison_2 l lt op r rt)
  from expr_shape(6)[OF comparison_2.hyps(1)] have "balanced l" by simp
  moreover from comparison_2.hyps(2) have "is_operator op" by (simp add: op_defs)
  ultimately show ?case using binary_no_top by blast
next
  case (term_2 l lt op r rt)
  from expr_shape(7)[OF term_2.hyps(1)] have "balanced l" by simp
  moreover from term_2.hyps(2) have "is_operator op" by (simp add: op_defs)
  ultimately show ?case using binary_no_top by blast
next
  case (factor_2 l lt op r rt)
  from expr_shape(8)[OF factor_2.hyps(1)] have "balanced l" by simp
  moreover from factor_2.hyps(2) have "is_operator op" by (simp add: op_defs)
  ultimately show ?case using binary_no_top by blast
next
  case (unary_expr_2 op r rt)
  then have "is_operator op" by (simp add: op_defs)
  with is_operator_not_paren[OF this] show ?case by auto
qed simp_all

lemma not_super_alone: "call [Str ''super''] t \<Longrightarrow> False"
proof -
  assume "call [Str ''super''] t"
  then have "super_ok [Str ''super'']" by (rule super_ok_expr(10))
  then show False unfolding super_ok_def by (elim allE[of _ 0]) simp
qed

lemma assignment_rejects:
  assumes lo: "logic_or lhs lt"
    and nv: "\<forall>cs. lt \<noteq> Tree ''variable'' cs"
    and ng: "\<forall>cs. lt \<noteq> Tree ''get'' cs"
  shows "\<not> assignment (lhs @ Str ''='' # rhs) t"
proof
  assume A: "assignment (lhs @ Str ''='' # rhs) t"
  from expr_shape(3)[OF lo] have bl: "balanced lhs" and ne: "lhs \<noteq> []"
    and noeq: "Str ''='' \<notin> set (top_level 0 lhs)" by simp_all
  from A show False
  proof (cases rule: assignment.cases)
    case assignment_1
    from expr_shape(3)[OF this] have "Str ''='' \<notin> set (top_level 0 (lhs @ Str ''='' # rhs))"
      by simp
    with bl show False by (simp add: top_level_append)
  next
    case (assignment_2 r rt x)
    from assignment_2(1) ne obtain lhs' where l: "lhs = IDENTIFIER x # lhs'"
      and r: "lhs' @ Str ''='' # rhs = Str ''='' # r"
      by (cases lhs) auto
    show False
    proof (cases lhs')
      case Nil
      with l expr_single(3)[OF lo] nv show False by simp
    next
      case (Cons a l'')
      with r have "a = Str ''=''" by simp
      with l Cons noeq show False by simp
    qed
  next
    case (assignment_3 c tc r rt x)
    from expr_shape(10)[OF assignment_3(3)] have bc: "balanced c"
      and noop: "\<forall>x\<in>set (top_level 0 c). \<not> is_operator x" by simp_all
    from assignment_3(1) have
      "lhs @ (Str ''='' # rhs) = c @ (Str ''.'' # IDENTIFIER x # Str ''='' # r)" by simp
    then obtain us where
      "(lhs = c @ us \<and> us @ (Str ''='' # rhs) = Str ''.'' # IDENTIFIER x # Str ''='' # r) \<or>
       (lhs @ us = c \<and> Str ''='' # rhs = us @ (Str ''.'' # IDENTIFIER x # Str ''='' # r))"
      unfolding append_eq_append_conv2 by blast
    then show False
    proof
      assume a: "lhs = c @ us \<and> us @ (Str ''='' # rhs) = Str ''.'' # IDENTIFIER x # Str ''='' # r"
      then have us: "us = [Str ''.'', IDENTIFIER x] \<or>
          (\<exists>us'. us = Str ''.'' # IDENTIFIER x # Str ''='' # us')"
        by (cases us; cases "tl us"; cases "tl (tl us)") auto
      then show False
      proof
        assume "us = [Str ''.'', IDENTIFIER x]"
        with a have lhs: "lhs = c @ [Str ''.'', IDENTIFIER x]" by simp
        with bc noop have "\<forall>x\<in>set (top_level 0 lhs). \<not> is_operator x"
          by (auto simp: top_level_append op_defs)
        with expr_call_level(3)[OF lo] have "call lhs lt" by simp
        then show False
        proof (cases rule: call.cases)
          case call_1
          then show False
          proof (cases rule: primary.cases)
            case (primary_grouping e te)
            with lhs have "last (Str ''('' # e @ [Str '')'']) = last (c @ [Str ''.'', IDENTIFIER x])"
              by simp
            then show False by simp
          next
            case (primary_super y)
            with lhs have "c = [Str ''super'']" by (simp add: Cons_eq_append_conv)
            with assignment_3(3) not_super_alone show False by blast
          qed (use lhs in \<open>simp_all add: Cons_eq_append_conv\<close>)
        next
          case (call_2_none c' tc')
          with lhs have "last (c' @ [Str ''('', Str '')'']) = last (c @ [Str ''.'', IDENTIFIER x])"
            by simp
          then show False by simp
        next
          case (call_2 c' tc' a' tas)
          with lhs have "last (c' @ Str ''('' # a' @ [Str '')'']) = last (c @ [Str ''.'', IDENTIFIER x])"
            by simp
          then show False by simp
        next
          case (call_3 c' tc' y)
          with ng show False by simp
        qed
      next
        assume "\<exists>us'. us = Str ''.'' # IDENTIFIER x # Str ''='' # us'"
        then obtain us' where "us = Str ''.'' # IDENTIFIER x # Str ''='' # us'" by blast
        with a have "lhs = c @ Str ''.'' # IDENTIFIER x # Str ''='' # us'" by simp
        with bc noeq show False by (simp add: top_level_append)
      qed
    next
      assume b: "lhs @ us = c \<and> Str ''='' # rhs = us @ (Str ''.'' # IDENTIFIER x # Str ''='' # r)"
      then obtain us' where "us = Str ''='' # us'" by (cases us) auto
      with b have "c = lhs @ Str ''='' # us'" by simp
      with bl have "Str ''='' \<in> set (top_level 0 c)" by (simp add: top_level_append)
      with noop show False by (auto simp: is_operator_def)
    qed
  qed
qed

text \<open>
  What the grammar decides about assignment targets. Let the left-hand side be any token
  list that parses as an expression above the assignment level, and let an \<^verbatim>\<open>=\<close> and a
  right-hand side follow. If the tree of the left-hand side is a variable, the whole
  parses as the assignment to that variable; if it is a property access, the whole
  parses as the property assignment on the same object and name; for every other
  left-hand side the whole has no parse at all. The grammar contains neither the text of
  an error message nor a position up to which tokens are consumed.
\<close>

lemma assignment_follows_target:
  assumes "logic_or lhs lt" and "assignment rhs rt"
  shows "case assignment_target lt rt of
           Some t \<Rightarrow> assignment (lhs @ Str ''='' # rhs) t
         | None \<Rightarrow> \<forall>t. \<not> assignment (lhs @ Str ''='' # rhs) t"
proof (cases "\<exists>cs. lt = Tree ''variable'' cs")
  case True
  then obtain cs where lt: "lt = Tree ''variable'' cs" by blast
  with expr_variable(3)[OF assms(1)] obtain x where "lhs = [IDENTIFIER x]"
    and "cs = [Tok (IDENTIFIER x)]" by blast
  with lt assignment_2[OF assms(2), of x] show ?thesis by simp
next
  case nv: False
  show ?thesis
  proof (cases "\<exists>cs. lt = Tree ''get'' cs")
    case True
    then obtain cs where lt: "lt = Tree ''get'' cs" by blast
    with expr_get(3)[OF assms(1)] obtain c tc x where "lhs = c @ [Str ''.'', IDENTIFIER x]"
      and "cs = [tc, Tok (IDENTIFIER x)]" and "call c tc" by blast
    with lt assignment_3[OF \<open>call c tc\<close> assms(2), of x] show ?thesis by simp
  next
    case False
    with nv have none: "assignment_target lt rt = None"
      by (cases lt) auto
    from assignment_rejects[OF assms(1)] nv False
    have "\<forall>t. \<not> assignment (lhs @ Str ''='' # rhs) t" by blast
    with none show ?thesis by simp
  qed
qed

lemma expression_is_assignment: "expression ts t \<Longrightarrow> assignment ts t"
  by (erule expression.cases) simp

lemma error_at_equals:
  assumes lo: "logic_or lhs lt"
    and nv: "\<forall>cs. lt \<noteq> Tree ''variable'' cs"
    and ng: "\<forall>cs. lt \<noteq> Tree ''get'' cs"
  shows "syntax_error_at (lhs @ Str ''='' # rhs) (length lhs)"
proof -
  from lo have "expression (lhs @ []) lt" by (simp add: expression_1 assignment_1)
  then have 1: "begins_expression lhs" unfolding begins_expression_def by blast
  have 2: "\<not> begins_expression (lhs @ [Str ''=''])"
  proof
    assume "begins_expression (lhs @ [Str ''=''])"
    then obtain rest t where "expression (lhs @ Str ''='' # rest) t"
      by (auto simp: begins_expression_def)
    then have "assignment (lhs @ Str ''='' # rest) t" by (rule expression_is_assignment)
    with assignment_rejects[OF lo nv ng] show False by blast
  qed
  from 1 2 show ?thesis by (simp add: syntax_error_at_def)
qed

text \<open>
  Claim C6. Let the left-hand side be any token list that parses as an expression above
  the assignment level, and let an \<^verbatim>\<open>=\<close> and further tokens follow. The step that the
  specification describes turns a variable into the assignment to that variable and a
  property access into the property assignment on the same object and name, and the
  grammar derives exactly that node for the whole when the tokens after the \<^verbatim>\<open>=\<close> parse as
  its value. For every other left-hand side, whatever follows the \<^verbatim>\<open>=\<close>, the
  step reports the syntax error with the message \<^verbatim>\<open>invalid assignment target\<close> and leaves
  the \<^verbatim>\<open>=\<close> and what follows it unconsumed, and the grammar agrees: the whole has no
  parse, the left-hand side is the beginning of an expression, and nothing that
  includes the \<^verbatim>\<open>=\<close> is, so the error is at the \<^verbatim>\<open>=\<close> and the \<^verbatim>\<open>=\<close> is not consumed.
\<close>

theorem assignment_by_target:
  assumes "logic_or lhs lt"
  shows "case assignment_step lt (Str ''='' # rhs) rt of
           Converted t \<Rightarrow> assignment rhs rt \<longrightarrow> assignment (lhs @ Str ''='' # rhs) t
         | SyntaxError message left \<Rightarrow>
             message = ''invalid assignment target'' \<and> left = Str ''='' # rhs \<and>
             syntax_error_at (lhs @ Str ''='' # rhs) (length lhs) \<and>
             (\<forall>t. \<not> assignment (lhs @ Str ''='' # rhs) t)"
proof (cases "assignment_target lt rt")
  case None
  then have nv: "\<forall>cs. lt \<noteq> Tree ''variable'' cs" and ng: "\<forall>cs. lt \<noteq> Tree ''get'' cs"
    using expr_variable(3)[OF assms] expr_get(3)[OF assms] by auto
  from assignment_rejects[OF assms nv ng]
  have "\<forall>t. \<not> assignment (lhs @ Str ''='' # rhs) t" by blast
  with None error_at_equals[OF assms nv ng, of rhs] show ?thesis
    by (simp add: assignment_step_def invalid_assignment_target_def)
next
  case (Some t)
  have "assignment rhs rt \<longrightarrow> assignment (lhs @ Str ''='' # rhs) t"
  proof
    assume "assignment rhs rt"
    from assignment_follows_target[OF assms this] Some
    show "assignment (lhs @ Str ''='' # rhs) t" by simp
  qed
  with Some show ?thesis by (simp add: assignment_step_def)
qed

theorem assignment_by_target_witness:
  "assignment [IDENTIFIER ''a'', Str ''='', NUMBER ''1'']
     (Tree ''assignment'' [Tok (IDENTIFIER ''a''), num ''1'']) \<and>
   assignment [IDENTIFIER ''a'', Str ''.'', IDENTIFIER ''b'', Str ''='', NUMBER ''1'']
     (Tree ''set'' [var ''a'', Tok (IDENTIFIER ''b''), num ''1'']) \<and>
   assignment_step (Tree ''grouping'' [var ''a'']) [Str ''='', NUMBER ''1''] (num ''1'') =
     SyntaxError ''invalid assignment target'' [Str ''='', NUMBER ''1''] \<and>
   syntax_error_at [Str ''('', IDENTIFIER ''a'', Str '')'', Str ''='', NUMBER ''1''] 3"
proof -
  have rhs: "assignment [NUMBER ''1''] (num ''1'')" by (rule num_at)
  have v: "logic_or [IDENTIFIER ''a''] (var ''a'')" by (rule var_at)
  have "call ([IDENTIFIER ''a''] @ [Str ''.'', IDENTIFIER ''b''])
          (Tree ''get'' [var ''a'', Tok (IDENTIFIER ''b'')])"
    by (rule call_3) (rule var_at)
  then have g: "logic_or ([IDENTIFIER ''a''] @ [Str ''.'', IDENTIFIER ''b''])
          (Tree ''get'' [var ''a'', Tok (IDENTIFIER ''b'')])"
    by (intro logic_or_1 logic_and_1 equality_1 comparison_1 term_1 factor_1 unary_expr_1)
  have "primary (Str ''('' # [IDENTIFIER ''a''] @ [Str '')'']) (Tree ''grouping'' [var ''a''])"
    by (rule primary_grouping) (rule var_at)
  then have p: "logic_or (Str ''('' # [IDENTIFIER ''a''] @ [Str '')'']) (Tree ''grouping'' [var ''a''])"
    by (rule from_primary)
  show ?thesis
    using assignment_by_target[OF v, of "[NUMBER ''1'']" "num ''1''"]
      assignment_by_target[OF g, of "[NUMBER ''1'']" "num ''1''"]
      assignment_by_target[OF p, of "[NUMBER ''1'']" "num ''1''"] rhs
    by (simp add: var_def assignment_step_def invalid_assignment_target_def numeral_3_eq_3)
qed

section \<open>Properties of the COMMENT terminal\<close>















section \<open>Properties of the for statement\<close>






lemma is_empty_initializer_desugar [simp]:
  "is_empty_initializer (desugar t) = is_empty_initializer t"
proof (cases t)
  case (Tree n cs)
  then show ?thesis
    by (auto simp: desugar_for_def split: list.splits)
qed simp_all

lemma desugar_eq_NoneT [simp]: "(desugar t = NoneT) = (t = NoneT)"
proof (cases t)
  case (Tree n cs)
  then show ?thesis
    by (auto simp: desugar_for_def split: list.splits)
qed simp_all

lemma desugar_literal_true [simp]: "desugar literal_true = literal_true"
  by (simp add: literal_true_def)







section \<open>Properties of the arity limit\<close>









lemma arity_errors_name_tokens [simp]: "concat (map arity_errors (name_tokens xs)) = []"
  by (induction xs) (simp_all add: name_tokens_def)








section \<open>Properties of the lexer\<close>

lemma dot_not_digit: "\<not> is_digit (CHR ''.'')"
  by (simp add: is_digit_def)

lemma takeWhile_digits_dot:
  "\<forall>c\<in>set ds. is_digit c \<Longrightarrow> takeWhile is_digit (ds @ CHR ''.'' # r) = ds"
  by (simp add: takeWhile_append2 dot_not_digit)

lemma dropWhile_digits_dot:
  "\<forall>c\<in>set ds. is_digit c \<Longrightarrow> dropWhile is_digit (ds @ CHR ''.'' # r) = CHR ''.'' # r"
  by (simp add: dropWhile_append2 dot_not_digit)

lemma number_shape_number_end:
  assumes "is_digit c"
  shows "number_shape (c # fst (number_end cs))"
proof (cases "fraction_follows (dropWhile is_digit cs)")
  case False
  then have "fst (number_end cs) = takeWhile is_digit cs"
    by (simp add: number_end_def Let_def)
  moreover have "takeWhile is_digit (c # takeWhile is_digit cs) = c # takeWhile is_digit cs"
    using assms by simp
  moreover have "dropWhile is_digit (c # takeWhile is_digit cs) = []"
    using assms by (auto dest: set_takeWhileD)
  ultimately show ?thesis by (simp add: number_shape_def Let_def)
next
  case True
  then obtain f r2 where r1: "dropWhile is_digit cs = CHR ''.'' # f # r2" and f: "is_digit f"
    by (auto simp: fraction_follows_def split: list.splits)
  let ?ds = "c # takeWhile is_digit cs"
  let ?fs = "f # takeWhile is_digit r2"
  from True r1 have n: "c # fst (number_end cs) = ?ds @ CHR ''.'' # ?fs"
    by (simp add: number_end_def Let_def)
  have ds: "\<forall>x\<in>set ?ds. is_digit x" using assms by (auto dest: set_takeWhileD)
  have fs: "\<forall>x\<in>set ?fs. is_digit x" using f by (auto dest: set_takeWhileD)
  from takeWhile_digits_dot[OF ds, of ?fs] dropWhile_digits_dot[OF ds, of ?fs] fs
  show ?thesis unfolding n number_shape_def Let_def by simp
qed

declare lexer.simps [simp del]

lemma lexer_Nil [simp]: "lexer [] line = [EndOfFile line]"
  by (simp add: lexer.simps)

lemma digit_plain:
  "is_digit c \<Longrightarrow> \<not> is_blank c \<and> c \<noteq> newline \<and> \<not> comment_start c cs"
  by (auto simp: is_digit_def newline_def is_blank_def comment_start_def)

lemma quote_plain:
  "\<not> is_blank quote \<and> quote \<noteq> newline \<and> \<not> comment_start quote cs \<and> \<not> is_digit quote"
  by (simp add: is_digit_def newline_def is_blank_def comment_start_def quote_def)

lemma dot_plain:
  "\<not> is_blank (CHR ''.'') \<and> CHR ''.'' \<noteq> newline \<and> \<not> comment_start (CHR ''.'') cs \<and>
   \<not> is_digit (CHR ''.'') \<and> CHR ''.'' \<noteq> quote \<and> \<not> is_alpha (CHR ''.'') \<and>
   \<not> two_char_operator (CHR ''.'') cs \<and> one_char_token (CHR ''.'')"
  by (simp add: is_digit_def newline_def is_blank_def comment_start_def quote_def is_alpha_def
        two_char_operator_def one_char_token_def)

lemma lexer_digit:
  "is_digit c \<Longrightarrow>
   lexer (c # cs) line =
     Lexeme (NUMBER (c # fst (number_end cs))) line # lexer (snd (number_end cs)) line"
  using digit_plain[of c cs] by (simp add: lexer.simps)

lemma lexer_dot: "lexer (CHR ''.'' # r) line = Lexeme (Str ''.'') line # lexer r line"
  using dot_plain[of r] by (simp add: lexer.simps)

lemma lexer_quote:
  "lexer (quote # cs) line =
     (case string_end cs of
        None \<Rightarrow> [LexError UnterminatedString line, EndOfFile (line + count_list cs newline)]
      | Some (body, rest) \<Rightarrow>
          Lexeme (STRING (quote # body @ [quote])) line #
          lexer rest (line + count_list body newline))"
  using quote_plain[of cs] by (simp add: lexer.simps)

lemma lex_numbers_shaped:
  "Lexeme (NUMBER n) l \<in> set (lexer s line) \<Longrightarrow> number_shape n"
proof (induction s line rule: lexer.induct)
  case (1 line)
  then show ?case by simp
next
  case (2 c cs line)
  consider (blank) "is_blank c"
    | (nl) "\<not> is_blank c" "c = newline"
    | (comment) "\<not> is_blank c" "c \<noteq> newline" "comment_start c cs"
    | (digit) "\<not> is_blank c" "c \<noteq> newline" "\<not> comment_start c cs"
        "is_digit c"
    | (str) "\<not> is_blank c" "c \<noteq> newline" "\<not> comment_start c cs"
        "\<not> is_digit c" "c = quote"
    | (alpha) "\<not> is_blank c" "c \<noteq> newline" "\<not> comment_start c cs"
        "\<not> is_digit c" "c \<noteq> quote" "is_alpha c"
    | (two) "\<not> is_blank c" "c \<noteq> newline" "\<not> comment_start c cs"
        "\<not> is_digit c" "c \<noteq> quote" "\<not> is_alpha c" "two_char_operator c cs"
    | (one) "\<not> is_blank c" "c \<noteq> newline" "\<not> comment_start c cs"
        "\<not> is_digit c" "c \<noteq> quote" "\<not> is_alpha c"
        "\<not> two_char_operator c cs" "one_char_token c"
    | (other) "\<not> is_blank c" "c \<noteq> newline" "\<not> comment_start c cs"
        "\<not> is_digit c" "c \<noteq> quote" "\<not> is_alpha c"
        "\<not> two_char_operator c cs" "\<not> one_char_token c"
    by blast
  then show ?case
  proof cases
    case blank
    with 2(10) have "Lexeme (NUMBER n) l \<in> set (lexer cs line)" by (simp add: lexer.simps)
    with 2(1)[OF blank] show ?thesis .
  next
    case nl
    with 2(10) have "Lexeme (NUMBER n) l \<in> set (lexer cs (Suc line))" by (simp add: lexer.simps)
    with 2(2)[OF nl] show ?thesis .
  next
    case comment
    with 2(10) have "Lexeme (NUMBER n) l \<in>
        set (lexer (dropWhile (\<lambda>x. x \<noteq> newline) (tl cs)) line)" by (simp add: lexer.simps)
    with 2(3)[OF comment] show ?thesis .
  next
    case digit
    from 2(10) have "Lexeme (NUMBER n) l \<in>
        set (Lexeme (NUMBER (c # fst (number_end cs))) line # lexer (snd (number_end cs)) line)"
      by (simp add: lexer_digit[OF digit(4)])
    with 2(4)[OF digit] number_shape_number_end[OF digit(4), of cs] show ?thesis by auto
  next
    case str
    show ?thesis
    proof (cases "string_end cs")
      case None
      with 2(10) str show ?thesis by (simp add: lexer_quote)
    next
      case (Some p)
      obtain body rest where p: "p = (body, rest)" by (cases p)
      with Some 2(10) str have "Lexeme (NUMBER n) l \<in>
          set (lexer rest (line + count_list body newline))" by (simp add: lexer_quote)
      with 2(5)[OF str Some(1)[unfolded p] refl] show ?thesis by simp
    qed
  next
    case alpha
    with 2(10) have "Lexeme (NUMBER n) l \<in> set (lexer (dropWhile is_alnum cs) line)"
      by (simp add: lexer.simps Let_def split: if_splits)
    with 2(6)[OF alpha refl] show ?thesis .
  next
    case two
    with 2(10) have "Lexeme (NUMBER n) l \<in> set (lexer (tl cs) line)"
      by (simp add: lexer.simps)
    with 2(7)[OF two] show ?thesis .
  next
    case one
    with 2(10) have "Lexeme (NUMBER n) l \<in> set (lexer cs line)"
      by (simp add: lexer.simps)
    with 2(8)[OF one] show ?thesis .
  next
    case other
    with 2(10) have "Lexeme (NUMBER n) l \<in> set (lexer cs line)"
      by (simp add: lexer.simps)
    with 2(9)[OF other] show ?thesis .
  qed
qed

lemma digits_then_other:
  assumes "\<forall>c\<in>set ds. is_digit c" and "rest = [] \<or> \<not> is_digit (hd rest)"
  shows "takeWhile is_digit (ds @ rest) = ds" and "dropWhile is_digit (ds @ rest) = rest"
proof -
  from assms(2) have t: "takeWhile is_digit rest = []" and d: "dropWhile is_digit rest = rest"
    by (cases rest; simp)+
  from assms(1) t show "takeWhile is_digit (ds @ rest) = ds"
    by (simp add: takeWhile_append2)
  from assms(1) d show "dropWhile is_digit (ds @ rest) = rest"
    by (simp add: dropWhile_append2)
qed

lemma lex_integer:
  assumes ds: "ds \<noteq> []" "\<forall>c\<in>set ds. is_digit c"
    and r: "rest = [] \<or> \<not> is_digit (hd rest)" and nf: "\<not> fraction_follows rest"
  shows "lexer (ds @ rest) line = Lexeme (NUMBER ds) line # lexer rest line"
proof -
  from ds obtain d ds' where d: "ds = d # ds'" "is_digit d" "\<forall>c\<in>set ds'. is_digit c"
    by (cases ds) auto
  from nf digits_then_other[OF d(3) r] have "number_end (ds' @ rest) = (ds', rest)"
    by (simp add: number_end_def Let_def)
  with d show ?thesis by (simp add: lexer_digit)
qed

lemma lex_decimal:
  assumes ds: "ds \<noteq> []" "\<forall>c\<in>set ds. is_digit c"
    and fs: "fs \<noteq> []" "\<forall>c\<in>set fs. is_digit c"
    and r: "rest = [] \<or> \<not> is_digit (hd rest)"
  shows "lexer (ds @ CHR ''.'' # fs @ rest) line =
           Lexeme (NUMBER (ds @ CHR ''.'' # fs)) line # lexer rest line"
proof -
  from ds obtain d ds' where d: "ds = d # ds'" "is_digit d" "\<forall>c\<in>set ds'. is_digit c"
    by (cases ds) auto
  from fs obtain f fs' where f: "fs = f # fs'" "is_digit f" "\<forall>c\<in>set fs'. is_digit c"
    by (cases fs) auto
  have ff: "fraction_follows (CHR ''.'' # f # fs' @ rest)"
    using f(2) by (simp add: fraction_follows_def)
  from takeWhile_digits_dot[OF d(3), of "f # fs' @ rest"]
    dropWhile_digits_dot[OF d(3), of "f # fs' @ rest"] ff digits_then_other[OF f(3) r]
  have "number_end (ds' @ CHR ''.'' # f # fs' @ rest) = (ds' @ CHR ''.'' # f # fs', rest)"
    by (simp add: number_end_def Let_def)
  with d f show ?thesis by (simp add: lexer_digit)
qed

lemma lex_trailing_dot:
  assumes ds: "ds \<noteq> []" "\<forall>c\<in>set ds. is_digit c" and r: "r = [] \<or> \<not> is_digit (hd r)"
  shows "lexer (ds @ CHR ''.'' # r) line =
           Lexeme (NUMBER ds) line # Lexeme (Str ''.'') line # lexer r line"
proof -
  from r have nf: "\<not> fraction_follows (CHR ''.'' # r)"
    by (auto simp: fraction_follows_def split: list.splits)
  from lex_integer[OF ds _ nf, of line] show ?thesis
    by (simp add: dot_not_digit lexer_dot)
qed

text \<open>
  Claim C2. Every number token that the lexer emits, on any input, is one or more digits
  optionally followed by a dot and one or more digits. Conversely, a run of digits that
  is followed neither by a digit nor by a dot and a digit is lexed as one number
  token, and so is a run of digits, a dot and a run of digits that is not followed by
  a digit. A dot after the digits that is not followed by a digit is not part of the
  number: the lexer emits the number and then the dot as a token of its own. On the
  input \<^verbatim>\<open>123.\<close> it emits the number \<^verbatim>\<open>123\<close>, the dot, and the end-of-file token.
\<close>

theorem number_lexing:
  "(Lexeme (NUMBER n) l \<in> set (lexer s line) \<longrightarrow> number_shape n) \<and>
   (ds \<noteq> [] \<and> (\<forall>c\<in>set ds. is_digit c) \<and> (r = [] \<or> \<not> is_digit (hd r)) \<and>
      \<not> fraction_follows r \<longrightarrow>
      lexer (ds @ r) line = Lexeme (NUMBER ds) line # lexer r line) \<and>
   (ds \<noteq> [] \<and> (\<forall>c\<in>set ds. is_digit c) \<and> fs \<noteq> [] \<and> (\<forall>c\<in>set fs. is_digit c) \<and>
      (r = [] \<or> \<not> is_digit (hd r)) \<longrightarrow>
      lexer (ds @ CHR ''.'' # fs @ r) line =
        Lexeme (NUMBER (ds @ CHR ''.'' # fs)) line # lexer r line) \<and>
   (ds \<noteq> [] \<and> (\<forall>c\<in>set ds. is_digit c) \<and> (r = [] \<or> \<not> is_digit (hd r)) \<longrightarrow>
      lexer (ds @ CHR ''.'' # r) line =
        Lexeme (NUMBER ds) line # Lexeme (Str ''.'') line # lexer r line) \<and>
   lexer ''123.'' 1 = [Lexeme (NUMBER ''123'') 1, Lexeme (Str ''.'') 1, EndOfFile 1]"
proof -
  have "lexer ''123.'' 1 = [Lexeme (NUMBER ''123'') 1, Lexeme (Str ''.'') 1, EndOfFile 1]"
    using lex_trailing_dot[of "''123''" "[]" 1] by (simp add: is_digit_def)
  with lex_numbers_shaped[of n l s line] lex_integer[of ds r line] lex_decimal[of ds fs r line]
    lex_trailing_dot[of ds r line]
  show ?thesis by blast
qed

theorem number_lexing_witness:
  "number_shape ''123'' \<and>
   lexer ''42.foo'' 1 =
     [Lexeme (NUMBER ''42'') 1, Lexeme (Str ''.'') 1, Lexeme (IDENTIFIER ''foo'') 1, EndOfFile 1]"
proof -
  have m: "Lexeme (NUMBER ''123'') 1 \<in> set (lexer ''123.'' 1)" by code_simp
  have d: "''42'' \<noteq> [] \<and> (\<forall>c\<in>set ''42''. is_digit c) \<and> (''foo'' = [] \<or> \<not> is_digit (hd ''foo''))"
    by (simp add: is_digit_def)
  have f: "lexer ''foo'' 1 = [Lexeme (IDENTIFIER ''foo'') 1, EndOfFile 1]" by code_simp
  note t = number_lexing[where n = "''123''" and l = 1 and s = "''123.''" and line = 1
      and ds = "''42''" and r = "''foo''" and fs = "''0''"]
  from t m have 1: "number_shape ''123''" by blast
  from t d have "lexer (''42'' @ CHR ''.'' # ''foo'') 1 =
      Lexeme (NUMBER ''42'') 1 # Lexeme (Str ''.'') 1 # lexer ''foo'' 1" by blast
  with 1 f show ?thesis by simp
qed

lemma backslash_not_quote: "backslash \<noteq> quote"
  by (simp add: backslash_def quote_def)

lemma string_end_quote: "string_end (quote # rest) = Some ([], rest)"
  by (cases rest) simp_all

lemma string_end_ok:
  "string_body_ok body \<Longrightarrow> string_end (body @ quote # rest) = Some (body, rest)"
proof (induction body rule: string_body_ok.induct)
  case 1
  then show ?case by (simp add: string_end_quote)
next
  case (2 c)
  then show ?case by (simp add: string_end_quote)
next
  case (3 c d cs)
  then show ?case using backslash_not_quote by (auto split: if_splits)
qed

lemma string_end_unterminated: "string_body_ok body \<Longrightarrow> string_end body = None"
  using backslash_not_quote
  by (induction body rule: string_body_ok.induct) (auto split: if_splits)

lemma plain_body_ok:
  "\<forall>c\<in>set body. c \<noteq> quote \<and> c \<noteq> backslash \<Longrightarrow> string_body_ok body"
  by (induction body rule: string_body_ok.induct) auto

lemma string_end_sound:
  "string_end s = Some (body, rest) \<Longrightarrow> s = body @ quote # rest \<and> string_body_ok body"
proof (induction s arbitrary: body rest rule: string_end.induct)
  case 1
  then show ?case by simp
next
  case (2 c)
  then show ?case by (simp split: if_splits)
next
  case (3 c d cs)
  show ?case
  proof (cases "c = quote")
    case True
    with 3(3) show ?thesis by simp
  next
    case nq: False
    show ?thesis
    proof (cases "c = backslash \<and> (d = quote \<or> d = backslash)")
      case True
      with nq 3(3) obtain b' where e: "string_end cs = Some (b', rest)" and b: "body = c # d # b'"
        by (auto split: option.splits)
      from 3(1)[OF nq True e] True b show ?thesis by simp
    next
      case False
      with nq 3(3) obtain b' where e: "string_end (d # cs) = Some (b', rest)" and b: "body = c # b'"
        by (auto split: option.splits)
      from 3(2)[OF nq False e] have s: "d # cs = b' @ quote # rest" and ok: "string_body_ok b'"
        by simp_all
      show ?thesis
      proof (cases b')
        case Nil
        with s have "d = quote" by simp
        with False nq Nil b s show ?thesis by simp
      next
        case (Cons x xs)
        with s have "x = d" by simp
        with Cons False nq ok b s show ?thesis by auto
      qed
    qed
  qed
qed

lemma unterminated_string_end: "unterminated s \<Longrightarrow> string_end s = None"
proof (rule ccontr)
  assume u: "unterminated s" and "string_end s \<noteq> None"
  then obtain body rest where "string_end s = Some (body, rest)" by auto
  from string_end_sound[OF this] have "closing_quote_at s (length body)"
    by (simp add: closing_quote_at_def)
  moreover from \<open>s = body @ quote # rest \<and> string_body_ok body\<close> have "length body < length s" by simp
  ultimately show False using u by (simp add: unterminated_def)
qed

lemma terminated_not_unterminated:
  "string_body_ok body \<Longrightarrow> \<not> unterminated (body @ quote # rest)"
  by (auto simp: unterminated_def closing_quote_at_def intro!: exI[of _ "length body"])

text \<open>
  Claim C4. A double quote, a text made of characters other than the quote and of the
  escapes backslash-quote and backslash-backslash, and a closing double quote are one
  string token; the text may contain newlines, each of which advances the line of the
  tokens that follow. Whenever the input after the opening quote reaches its end
  without a closing quote, the lexer reports the unterminated string; that is so
  whatever the input ends with, a backslash included. Every input after an opening
  quote is of one of these two kinds. A text without quote and backslash is the text of
  a string, and so is the text of a string followed by either escape.
\<close>

theorem string_lexing:
  "(string_body_ok body \<longrightarrow>
      lexer (quote # body @ quote # rest) line =
        Lexeme (STRING (quote # body @ [quote])) line #
        lexer rest (line + count_list body newline)) \<and>
   (unterminated s \<longrightarrow>
      lexer (quote # s) line =
        [LexError UnterminatedString line, EndOfFile (line + count_list s newline)]) \<and>
   (unterminated s \<or> (\<exists>body rest. s = body @ quote # rest \<and> string_body_ok body)) \<and>
   ((\<forall>c\<in>set body. c \<noteq> quote \<and> c \<noteq> backslash) \<longrightarrow> string_body_ok body) \<and>
   (string_body_ok body \<longrightarrow>
      string_body_ok (body @ [backslash, quote]) \<and> string_body_ok (body @ [backslash, backslash]))"
proof -
  have esc: "string_body_ok body \<Longrightarrow> string_body_ok (body @ [backslash, d])"
    if "d = quote \<or> d = backslash" for d
    using that by (induction body rule: string_body_ok.induct) (auto simp: quote_def backslash_def)
  have total: "unterminated s \<or> (\<exists>body rest. s = body @ quote # rest \<and> string_body_ok body)"
  proof (cases "unterminated s")
    case False
    then obtain n where "closing_quote_at s n" by (auto simp: unterminated_def)
    then have "s = take n s @ quote # drop (Suc n) s \<and> string_body_ok (take n s)"
      using id_take_nth_drop[of n s] by (auto simp: closing_quote_at_def)
    then show ?thesis by blast
  qed simp
  show ?thesis
    using string_end_ok[of body rest] unterminated_string_end[of s] plain_body_ok[of body]
      esc[of quote] esc[of backslash] total
    by (simp add: lexer_quote)
qed

theorem string_lexing_witness:
  "lexer ([quote] @ ''a'' @ [backslash, quote, newline] @ ''b'' @ [quote] @ ''+'') 1 =
     [Lexeme (STRING ([quote] @ ''a'' @ [backslash, quote, newline] @ ''b'' @ [quote])) 1,
      Lexeme (Str ''+'') 2, EndOfFile 2] \<and>
   lexer ([quote] @ ''a'' @ [backslash, quote, newline] @ ''b'') 1 =
     [LexError UnterminatedString 1, EndOfFile 2] \<and>
   lexer [quote, backslash] 1 = [LexError UnterminatedString 1, EndOfFile 1]"
proof -
  let ?body = "''a'' @ [backslash, quote, newline] @ ''b''"
  have ok: "string_body_ok ?body" by (simp add: quote_def backslash_def newline_def)
  have n: "count_list ?body newline = 1" by (simp add: quote_def backslash_def newline_def)
  have p: "lexer ''+'' 2 = [Lexeme (Str ''+'') 2, EndOfFile 2]" by code_simp
  have u: "unterminated ?body"
    by (simp add: unterminated_def closing_quote_at_def All_less_Suc quote_def backslash_def
          newline_def)
  have v: "unterminated [backslash]"
    by (simp add: unterminated_def closing_quote_at_def quote_def backslash_def)
  note t = string_lexing[of ?body "''+''" 1 ?body]
  from t ok have a: "lexer (quote # ?body @ quote # ''+'') 1 =
      Lexeme (STRING (quote # ?body @ [quote])) 1 # lexer ''+'' (1 + count_list ?body newline)"
    by blast
  from t u have b: "lexer (quote # ?body) 1 =
      [LexError UnterminatedString 1, EndOfFile (1 + count_list ?body newline)]"
    by blast
  from string_lexing[of "[]" "[]" 1 "[backslash]"] v
  have c: "lexer [quote, backslash] 1 = [LexError UnterminatedString 1, EndOfFile 1]"
    by (simp add: newline_def backslash_def)
  from a b c show ?thesis unfolding n using p by (simp add: numeral_2_eq_2)
qed

end
